theory Spec2Isabelle
  imports Complex_Main "HOL-Library.Word"
begin

unbundle bit_operations_syntax

section \<open>Values, errors and array access\<close>

text \<open>
  The engine works on JavaScript arrays. Reading \<open>a[i]\<close> past the end of an array yields
  \<open>undefined\<close>; reading a property of \<open>undefined\<close> (as in \<open>grid[row][col]\<close> when
  \<open>grid[row]\<close> does not exist) throws a \<open>TypeError\<close>. Both outcomes are values of the model:
  a thrown error is \<open>Inl\<close>, \<open>undefined\<close> is \<open>None\<close>.

  A write \<open>grid[row][col] = v\<close> past the end of an existing row would extend that row with
  holes, which a list of cell values cannot hold; the model stops with \<open>SparseWrite\<close> there.
  Every write of the engine follows a read of the same cell, so this branch is never taken
  on a 9x9 grid.
\<close>

datatype error = TypeError | SparseWrite

definition bindE :: "error + 'a \<Rightarrow> ('a \<Rightarrow> error + 'b) \<Rightarrow> error + 'b" where
  "bindE m f = (case m of Inl e \<Rightarrow> Inl e | Inr x \<Rightarrow> f x)"

type_synonym CellValue = nat
type_synonym Grid = "CellValue list list"
type_synonym Position = "nat \<times> nat"

text \<open>\<open>a[row][col]\<close> as an expression.\<close>

definition getCell :: "'a list list \<Rightarrow> nat \<Rightarrow> nat \<Rightarrow> error + 'a option" where
  "getCell a row col =
     (if row < length a
      then Inr (if col < length (a ! row) then Some (a ! row ! col) else None)
      else Inl TypeError)"

text \<open>\<open>a[row][col] = v\<close> as a statement.\<close>

definition setCell :: "'a list list \<Rightarrow> nat \<Rightarrow> nat \<Rightarrow> 'a \<Rightarrow> error + 'a list list" where
  "setCell a row col v =
     (if row < length a
      then (if col < length (a ! row) then Inr (a[row := (a ! row)[col := v]])
            else Inl SparseWrite)
      else Inl TypeError)"

text \<open>\<open>grid[row][col] === num\<close>: \<open>undefined\<close> is equal to no number.\<close>

definition cellIs :: "Grid \<Rightarrow> nat \<Rightarrow> nat \<Rightarrow> CellValue \<Rightarrow> error + bool" where
  "cellIs grid row col num = bindE (getCell grid row col) (\<lambda>v. Inr (v = Some num))"

text \<open>A loop that returns as soon as its body's test succeeds.\<close>

fun anyE :: "('a \<Rightarrow> error + bool) \<Rightarrow> 'a list \<Rightarrow> error + bool" where
  "anyE p [] = Inr False"
| "anyE p (x # xs) =
     (case p x of Inl e \<Rightarrow> Inl e | Inr b \<Rightarrow> if b then Inr True else anyE p xs)"

text \<open>A loop that collects the elements passing a test (\<open>Array.prototype.filter\<close>, or a
  loop that pushes).\<close>

fun filterE :: "('a \<Rightarrow> error + bool) \<Rightarrow> 'a list \<Rightarrow> error + 'a list" where
  "filterE p [] = Inr []"
| "filterE p (x # xs) =
     bindE (p x) (\<lambda>b. bindE (filterE p xs) (\<lambda>ys. Inr (if b then x # ys else ys)))"

text \<open>A loop that builds one result per element (\<open>Array.prototype.map\<close>).\<close>

fun mapE :: "('a \<Rightarrow> error + 'b) \<Rightarrow> 'a list \<Rightarrow> error + 'b list" where
  "mapE f [] = Inr []"
| "mapE f (x # xs) = bindE (f x) (\<lambda>y. bindE (mapE f xs) (\<lambda>ys. Inr (y # ys)))"

text \<open>A loop that returns the first non-null result of its body.\<close>

fun firstE :: "('a \<Rightarrow> error + 'b option) \<Rightarrow> 'a list \<Rightarrow> error + 'b option" where
  "firstE f [] = Inr None"
| "firstE f (x # xs) =
     (case f x of Inl e \<Rightarrow> Inl e
      | Inr (Some y) \<Rightarrow> Inr (Some y)
      | Inr None \<Rightarrow> firstE f xs)"

section \<open>Grid primitives (validator)\<close>

definition createEmptyGrid :: Grid where
  "createEmptyGrid = replicate 9 (replicate 9 0)"

definition cloneGrid :: "'a list list \<Rightarrow> 'a list list" where
  "cloneGrid grid = map (\<lambda>row. row) grid"

definition getBoxStart :: "nat \<Rightarrow> nat \<Rightarrow> nat \<times> nat" where
  "getBoxStart row col = ((row div 3) * 3, (col div 3) * 3)"

text \<open>The cells of the 3x3 box starting at \<open>(boxStartRow, boxStartCol)\<close>, in the order of the
  nested loops over \<open>r\<close> and \<open>c\<close>.\<close>

definition boxRange :: "nat \<Rightarrow> nat \<Rightarrow> Position list" where
  "boxRange boxStartRow boxStartCol =
     List.product [boxStartRow ..< boxStartRow + 3] [boxStartCol ..< boxStartCol + 3]"

definition isValidPlacement :: "Grid \<Rightarrow> nat \<Rightarrow> nat \<Rightarrow> CellValue \<Rightarrow> error + bool" where
  "isValidPlacement grid row col num =
     (if num = 0 then Inr True
      else
        bindE (anyE (\<lambda>c. if c \<noteq> col then cellIs grid row c num else Inr False) [0 ..< 9])
          (\<lambda>inRow. if inRow then Inr False
           else
        bindE (anyE (\<lambda>r. if r \<noteq> row then cellIs grid r col num else Inr False) [0 ..< 9])
          (\<lambda>inCol. if inCol then Inr False
           else
        (case getBoxStart row col of (boxStartRow, boxStartCol) \<Rightarrow>
        bindE (anyE (\<lambda>(r, c). if r \<noteq> row \<or> c \<noteq> col then cellIs grid r c num else Inr False)
                 (boxRange boxStartRow boxStartCol))
          (\<lambda>inBox. if inBox then Inr False else Inr True)))))"

definition getRowCells :: "nat \<Rightarrow> Position list" where
  "getRowCells row = map (\<lambda>col. (row, col)) [0 ..< 9]"

definition getColCells :: "nat \<Rightarrow> Position list" where
  "getColCells col = map (\<lambda>row. (row, col)) [0 ..< 9]"

definition getBoxCells :: "nat \<Rightarrow> nat \<Rightarrow> Position list" where
  "getBoxCells row col =
     (case getBoxStart row col of (boxStartRow, boxStartCol) \<Rightarrow> boxRange boxStartRow boxStartCol)"

text \<open>Insertion into a JavaScript \<open>Set\<close>: an element already present keeps its place.\<close>

fun setAdd :: "'a list \<Rightarrow> 'a \<Rightarrow> 'a list" where
  "setAdd s x = (if x \<in> set s then s else s @ [x])"

text \<open>The source keys the set by the string \<open>row,col\<close> and parses the keys back; for
  natural coordinates that round trip is the identity, so the model keeps the pairs.\<close>

definition getRelatedCells :: "nat \<Rightarrow> nat \<Rightarrow> Position list" where
  "getRelatedCells row col =
     (let related = foldl setAdd [] (map (\<lambda>c. (row, c)) (filter (\<lambda>c. c \<noteq> col) [0 ..< 9]));
          related = foldl setAdd related (map (\<lambda>r. (r, col)) (filter (\<lambda>r. r \<noteq> row) [0 ..< 9]));
          related = (case getBoxStart row col of (boxStartRow, boxStartCol) \<Rightarrow>
                       foldl setAdd related
                         (filter (\<lambda>(r, c). r \<noteq> row \<or> c \<noteq> col) (boxRange boxStartRow boxStartCol)))
      in related)"

text \<open>The row-major order of the nested loops \<open>for row ... for col ...\<close>.\<close>

definition allPositions :: "Position list" where
  "allPositions = List.product [0 ..< 9] [0 ..< 9]"

subsection \<open>Board state\<close>

record CellState =
  cellValue :: CellValue
  isGiven :: bool
  isError :: bool
  candidates :: "nat list"
  isHighlighted :: bool

type_synonym BoardState = "CellState list list"

record CheckResult =
  correct :: bool
  errors :: "Position list"

text \<open>\<open>board[row][col].value\<close>: the property read throws on \<open>undefined\<close>.\<close>

definition boardValue :: "BoardState \<Rightarrow> nat \<Rightarrow> nat \<Rightarrow> error + CellValue" where
  "boardValue board row col =
     bindE (getCell board row col)
       (\<lambda>cell. case cell of None \<Rightarrow> Inl TypeError | Some cs \<Rightarrow> Inr (cellValue cs))"

definition checkAgainstSolution :: "BoardState \<Rightarrow> Grid \<Rightarrow> error + CheckResult" where
  "checkAgainstSolution board solution =
     bindE (filterE (\<lambda>(row, col).
                bindE (boardValue board row col) (\<lambda>v.
                  if v \<noteq> 0
                  then bindE (getCell solution row col) (\<lambda>s. Inr (Some v \<noteq> s))
                  else Inr False))
              allPositions)
       (\<lambda>errs. Inr \<lparr> correct = (length errs = 0), errors = errs \<rparr>)"

text \<open>The play-time board for a puzzle (\<open>initializeBoard\<close> of the game store).\<close>

definition initializeBoard :: "Grid \<Rightarrow> BoardState" where
  "initializeBoard puzzle =
     map (\<lambda>row. map (\<lambda>v. \<lparr> cellValue = v, isGiven = (v \<noteq> 0), isError = False,
                              candidates = [], isHighlighted = False \<rparr>) row) puzzle"

section \<open>Technique detector (solver)\<close>

datatype TechniqueName = naked_single | hidden_single | naked_pair | pointing_pair

datatype Region = RegionRow | RegionCol | RegionBox

record Hint =
  technique :: TechniqueName
  description :: string
  targetCell :: Position
  targetValue :: nat
  highlightCells :: "Position list"
  highlightRegion :: "Region option"

text \<open>A candidate set is a JavaScript \<open>Set\<close>: its elements in insertion order, without
  repetition. \<open>Candidates\<close> is the 9x9 array of these sets.\<close>

type_synonym Candidates = "nat list list list"

text \<open>Template literals print a number in decimal.\<close>

definition digitChar :: "nat \<Rightarrow> char" where
  "digitChar d = char_of (48 + d)"

function showNat :: "nat \<Rightarrow> string" where
  "showNat n = (if n < 10 then [digitChar n] else showNat (n div 10) @ [digitChar (n mod 10)])"
  by pat_completeness auto
termination
  by (relation "measure (\<lambda>n. n)") auto

declare showNat.simps [simp del]

definition initializeCandidates :: "Grid \<Rightarrow> error + Candidates" where
  "initializeCandidates grid =
     mapE (\<lambda>row.
       mapE (\<lambda>col.
         bindE (cellIs grid row col 0) (\<lambda>empty.
           if empty
           then filterE (\<lambda>num. isValidPlacement grid row col num) [1 ..< 10]
           else Inr []))
         [0 ..< 9])
       [0 ..< 9]"

text \<open>\<open>candidates[row][col]\<close> followed by a property read (\<open>.size\<close>, \<open>.has\<close>) or by
  \<open>Array.from\<close>: each throws when the set is \<open>undefined\<close>.\<close>

definition candAt :: "Candidates \<Rightarrow> nat \<Rightarrow> nat \<Rightarrow> error + nat list" where
  "candAt cands row col =
     bindE (getCell cands row col)
       (\<lambda>s. case s of None \<Rightarrow> Inl TypeError | Some cs \<Rightarrow> Inr cs)"

text \<open>\<open>grid[r][c] !== 0\<close>.\<close>

definition cellFilled :: "Grid \<Rightarrow> Position \<Rightarrow> error + bool" where
  "cellFilled grid p = bindE (cellIs grid (fst p) (snd p) 0) (\<lambda>empty. Inr (\<not> empty))"

definition findNakedSingle :: "Grid \<Rightarrow> Candidates \<Rightarrow> error + Hint option" where
  "findNakedSingle grid cands =
     firstE (\<lambda>(row, col).
       bindE (cellIs grid row col 0) (\<lambda>empty.
         if \<not> empty then Inr None
         else bindE (candAt cands row col) (\<lambda>cs.
           if length cs = 1
           then (let v = cs ! 0 in
                 bindE (filterE (cellFilled grid) (getRelatedCells row col)) (\<lambda>relatedCells.
                   Inr (Some \<lparr> technique = naked_single,
                               description = ''Cell can only contain '' @ showNat v,
                               targetCell = (row, col),
                               targetValue = v,
                               highlightCells = (row, col) # take 5 relatedCells,
                               highlightRegion = None \<rparr>)))
           else Inr None)))
       allPositions"

text \<open>\<open>grid[row][col] === 0 && candidates[row][col].has(num)\<close>.\<close>

definition isPossible :: "Grid \<Rightarrow> Candidates \<Rightarrow> nat \<Rightarrow> nat \<Rightarrow> nat \<Rightarrow> error + bool" where
  "isPossible grid cands num row col =
     bindE (cellIs grid row col 0) (\<lambda>empty.
       if empty then bindE (candAt cands row col) (\<lambda>cs. Inr (num \<in> set cs)) else Inr False)"

text \<open>\<open>const hint = ...; if (hint) return hint;\<close> followed by the rest of the function.\<close>

definition orElseE :: "error + 'a option \<Rightarrow> (error + 'a option) \<Rightarrow> error + 'a option" where
  "orElseE m rest = bindE m (\<lambda>h. case h of Some x \<Rightarrow> Inr (Some x) | None \<Rightarrow> rest)"

text \<open>The nine box indices \<open>(boxRow, boxCol)\<close> in the order of the nested loops.\<close>

definition boxIndices :: "(nat \<times> nat) list" where
  "boxIndices = List.product [0 ..< 3] [0 ..< 3]"

definition hiddenInRow :: "Grid \<Rightarrow> Candidates \<Rightarrow> nat \<Rightarrow> nat \<Rightarrow> error + Hint option" where
  "hiddenInRow grid cands num row =
     bindE (filterE (\<lambda>col. isPossible grid cands num row col) [0 ..< 9]) (\<lambda>possibleCols.
       if length possibleCols = 1
       then Inr (Some \<lparr> technique = hidden_single,
                        description = showNat num @ '' can only go in one place in this row'',
                        targetCell = (row, possibleCols ! 0),
                        targetValue = num,
                        highlightCells = getRowCells row,
                        highlightRegion = Some RegionRow \<rparr>)
       else Inr None)"

definition hiddenInCol :: "Grid \<Rightarrow> Candidates \<Rightarrow> nat \<Rightarrow> nat \<Rightarrow> error + Hint option" where
  "hiddenInCol grid cands num col =
     bindE (filterE (\<lambda>row. isPossible grid cands num row col) [0 ..< 9]) (\<lambda>possibleRows.
       if length possibleRows = 1
       then Inr (Some \<lparr> technique = hidden_single,
                        description = showNat num @ '' can only go in one place in this column'',
                        targetCell = (possibleRows ! 0, col),
                        targetValue = num,
                        highlightCells = getColCells col,
                        highlightRegion = Some RegionCol \<rparr>)
       else Inr None)"

definition hiddenInBox :: "Grid \<Rightarrow> Candidates \<Rightarrow> nat \<Rightarrow> nat \<times> nat \<Rightarrow> error + Hint option" where
  "hiddenInBox grid cands num b =
     (case b of (boxRow, boxCol) \<Rightarrow>
       bindE (filterE (\<lambda>(r, c). isPossible grid cands num r c) (boxRange (boxRow * 3) (boxCol * 3)))
         (\<lambda>possibleCells.
           if length possibleCells = 1
           then (case possibleCells ! 0 of (row, col) \<Rightarrow>
                   Inr (Some \<lparr> technique = hidden_single,
                               description = showNat num @ '' can only go in one place in this box'',
                               targetCell = (row, col),
                               targetValue = num,
                               highlightCells = getBoxCells row col,
                               highlightRegion = Some RegionBox \<rparr>))
           else Inr None))"

definition findHiddenSingle :: "Grid \<Rightarrow> Candidates \<Rightarrow> error + Hint option" where
  "findHiddenSingle grid cands =
     firstE (\<lambda>num.
       orElseE (firstE (hiddenInRow grid cands num) [0 ..< 9])
      (orElseE (firstE (hiddenInCol grid cands num) [0 ..< 9])
               (firstE (hiddenInBox grid cands num) boxIndices)))
       [1 ..< 10]"

text \<open>The 27 units: rows, then columns, then boxes.\<close>

definition allUnits :: "Position list list" where
  "allUnits = map getRowCells [0 ..< 9] @ map getColCells [0 ..< 9]
              @ map (\<lambda>(boxRow, boxCol). getBoxCells (boxRow * 3) (boxCol * 3)) boxIndices"

text \<open>The pairs \<open>(xs[i], xs[j])\<close> with \<open>i < j\<close>, in the order of the loops over \<open>i\<close> and \<open>j\<close>.\<close>

fun pairsOf :: "'a list \<Rightarrow> ('a \<times> 'a) list" where
  "pairsOf [] = []"
| "pairsOf (x # xs) = map (Pair x) xs @ pairsOf xs"

text \<open>\<open>grid[r][c] === 0 && candidates[r][c].size === 2\<close>.\<close>

definition isPairCell :: "Grid \<Rightarrow> Candidates \<Rightarrow> Position \<Rightarrow> error + bool" where
  "isPairCell grid cands p =
     bindE (cellIs grid (fst p) (snd p) 0) (\<lambda>empty.
       if empty then bindE (candAt cands (fst p) (snd p)) (\<lambda>cs. Inr (length cs = 2))
       else Inr False)"

text \<open>The pair's values can be removed from another empty cell of the unit.\<close>

definition hasElimination ::
  "Grid \<Rightarrow> Candidates \<Rightarrow> Position list \<Rightarrow> Position \<Rightarrow> Position \<Rightarrow> nat list \<Rightarrow> error + bool" where
  "hasElimination grid cands unit p1 p2 pairValues =
     anyE (\<lambda>(r, c).
        if (r \<noteq> fst p1 \<or> c \<noteq> snd p1) \<and> (r \<noteq> fst p2 \<or> c \<noteq> snd p2)
        then bindE (cellIs grid r c 0) (\<lambda>empty.
               if empty
               then bindE (candAt cands r c) (\<lambda>cs. Inr (\<exists>v\<in>set pairValues. v \<in> set cs))
               else Inr False)
        else Inr False)
       unit"

text \<open>\<open>Array.from(s).sort().join(',')\<close> compares the elements as strings; candidates are the
  digits 1 to 9, on which that order is the numeric one, and two joined strings are equal
  exactly when the sorted lists are.\<close>

definition sortedKey :: "nat list \<Rightarrow> nat list" where
  "sortedKey cs = sort cs"

definition nakedPairAt ::
  "Grid \<Rightarrow> Candidates \<Rightarrow> Position list \<Rightarrow> Position \<times> Position \<Rightarrow> error + Hint option" where
  "nakedPairAt grid cands unit pq =
     (case pq of (p1, p2) \<Rightarrow>
       bindE (candAt cands (fst p1) (snd p1)) (\<lambda>cs1.
       bindE (candAt cands (fst p2) (snd p2)) (\<lambda>cs2.
         if sortedKey cs1 = sortedKey cs2
         then (let pairValues = cs1 in
               bindE (hasElimination grid cands unit p1 p2 pairValues) (\<lambda>found.
                 if found
                 then Inr (Some \<lparr> technique = naked_pair,
                                  description = ''These two cells form a naked pair with ''
                                     @ showNat (pairValues ! 0) @ '' and '' @ showNat (pairValues ! 1),
                                  targetCell = p1,
                                  targetValue = pairValues ! 0,
                                  highlightCells = [p1, p2],
                                  highlightRegion = None \<rparr>)
                 else Inr None))
         else Inr None)))"

definition findNakedPair :: "Grid \<Rightarrow> Candidates \<Rightarrow> error + Hint option" where
  "findNakedPair grid cands =
     firstE (\<lambda>unit.
       bindE (filterE (isPairCell grid cands) unit) (\<lambda>pairCells.
         firstE (nakedPairAt grid cands unit) (pairsOf pairCells)))
       allUnits"

definition defaultTechniques :: "TechniqueName list" where
  "defaultTechniques = [naked_single, hidden_single, naked_pair, pointing_pair]"

definition findNextHint :: "Grid \<Rightarrow> TechniqueName list \<Rightarrow> error + Hint option" where
  "findNextHint grid allowedTechniques =
     bindE (initializeCandidates grid) (\<lambda>cands.
       orElseE (if naked_single \<in> set allowedTechniques
                then findNakedSingle grid cands else Inr None)
      (orElseE (if hidden_single \<in> set allowedTechniques
                then findHiddenSingle grid cands else Inr None)
      (orElseE (if naked_pair \<in> set allowedTechniques
                then findNakedPair grid cands else Inr None)
               (Inr None))))"

record SolveResult =
  solved :: bool
  techniques :: "TechniqueName list"

text \<open>The scan for an empty cell at the head of each iteration (\<open>isSolved\<close> is its negation).\<close>

definition hasEmptyCell :: "Grid \<Rightarrow> error + bool" where
  "hasEmptyCell grid = anyE (\<lambda>(row, col). cellIs grid row col 0) allPositions"

text \<open>The \<open>while (iterations < maxIterations)\<close> loop; \<open>iterations\<close> is the count before the
  increment at the head of the body.\<close>

function solveLoop ::
  "Grid \<Rightarrow> TechniqueName list \<Rightarrow> TechniqueName list \<Rightarrow> nat \<Rightarrow> error + SolveResult" where
  "solveLoop grid allowedTechniques techniquesUsed iterations =
     (if iterations < 1000
      then (case hasEmptyCell grid of
              Inl e \<Rightarrow> Inl e
            | Inr False \<Rightarrow> Inr \<lparr> solved = True, techniques = techniquesUsed \<rparr>
            | Inr True \<Rightarrow>
               (case findNextHint grid allowedTechniques of
                  Inl e \<Rightarrow> Inl e
                | Inr None \<Rightarrow> Inr \<lparr> solved = False, techniques = techniquesUsed \<rparr>
                | Inr (Some hint) \<Rightarrow>
                   (case setCell grid (fst (targetCell hint)) (snd (targetCell hint))
                           (targetValue hint) of
                      Inl e \<Rightarrow> Inl e
                    | Inr grid' \<Rightarrow>
                        solveLoop grid' allowedTechniques (techniquesUsed @ [technique hint])
                          (iterations + 1))))
      else Inr \<lparr> solved = False, techniques = techniquesUsed \<rparr>)"
  by pat_completeness auto
termination
  by (relation "measure (\<lambda>(grid, allowed, used, iterations). 1000 - iterations)") auto

declare solveLoop.simps [simp del]

definition solvePuzzleWithTechniques :: "Grid \<Rightarrow> TechniqueName list \<Rightarrow> error + SolveResult" where
  "solvePuzzleWithTechniques puzzle allowedTechniques =
     solveLoop (cloneGrid puzzle) allowedTechniques [] 0"

text \<open>Which techniques each difficulty permits (\<open>difficultyTechniques\<close>).\<close>

datatype Difficulty = easy | medium | hard

fun difficultyTechniques :: "Difficulty \<Rightarrow> TechniqueName list" where
  "difficultyTechniques easy = [naked_single]"
| "difficultyTechniques medium = [naked_single, hidden_single]"
| "difficultyTechniques hard = [naked_single, hidden_single, naked_pair, pointing_pair]"

section \<open>Generator\<close>

subsection \<open>The random source\<close>

text \<open>
  \<open>randomFn\<close> is a global variable holding either \<open>Math.random\<close> or the closure returned by
  \<open>createSeededRandom\<close>, whose only state is its variable \<open>seed\<close>. \<open>Math.random\<close> belongs to
  the JavaScript runtime: the model takes it as a parameter \<open>mathRandom\<close>, a step function on
  a hidden state of type \<open>'m\<close>. A call of \<open>randomFn()\<close> is \<open>callRandom\<close>.

  \<open>seed\<close> is a JavaScript number. The date arithmetic that produces it yields \<open>NaN\<close> for an
  invalid date, written \<open>None\<close>; otherwise it is an integer, and \<open>seed += 0x6d2b79f5\<close> is
  exact as long as the sum stays below \<open>2^53\<close> (some 4.9 million calls), which is the range
  the model describes. The bit operations and \<open>Math.imul\<close> work on the low 32 bits.
\<close>

datatype RandomFn = MathRandom | SeededRandom "int option"

record 'm World =
  randomFn :: RandomFn
  mathState :: 'm

definition mulberry32 :: "int option \<Rightarrow> real \<times> int option" where
  "mulberry32 seed =
     (case seed of
        None \<Rightarrow> (0, None)
      | Some s \<Rightarrow>
         (let seed' = s + 0x6d2b79f5;
              t = (word_of_int seed' :: 32 word);
              t = (t XOR drop_bit 15 t) * (t OR 1);
              t = t XOR (t + (t XOR drop_bit 7 t) * (t OR 61))
          in (real_of_int (uint (t XOR drop_bit 14 t)) / 4294967296, Some seed')))"

definition callRandom :: "('m \<Rightarrow> real \<times> 'm) \<Rightarrow> 'm World \<Rightarrow> real \<times> 'm World" where
  "callRandom mathRandom w =
     (case randomFn w of
        MathRandom \<Rightarrow>
          (case mathRandom (mathState w) of (x, m') \<Rightarrow> (x, w\<lparr> mathState := m' \<rparr>))
      | SeededRandom seed \<Rightarrow>
          (case mulberry32 seed of (x, seed') \<Rightarrow> (x, w\<lparr> randomFn := SeededRandom seed' \<rparr>)))"

definition setRandomFunction :: "RandomFn \<Rightarrow> 'm World \<Rightarrow> 'm World" where
  "setRandomFunction fn w = w\<lparr> randomFn := fn \<rparr>"

definition resetRandomFunction :: "'m World \<Rightarrow> 'm World" where
  "resetRandomFunction w = w\<lparr> randomFn := MathRandom \<rparr>"

subsection \<open>Shuffle\<close>

text \<open>
  The Fisher-Yates loop, for \<open>i\<close> from \<open>length - 1\<close> down to 1. With a random number in
  \<open>[0, 1)\<close> the index \<open>j\<close> lies in \<open>0..i\<close>. Outside that range the swap would store
  \<open>undefined\<close> in the array; the model stops with \<open>SparseWrite\<close>.
\<close>

fun shuffleFrom ::
  "('m \<Rightarrow> real \<times> 'm) \<Rightarrow> nat \<Rightarrow> 'a list \<Rightarrow> 'm World \<Rightarrow> error + ('a list \<times> 'm World)" where
  "shuffleFrom mathRandom 0 result w = Inr (result, w)"
| "shuffleFrom mathRandom (Suc i') result w =
     (let i = Suc i' in
      case callRandom mathRandom w of (x, w') \<Rightarrow>
        (let j = \<lfloor>x * real (i + 1)\<rfloor> in
         if 0 \<le> j \<and> nat j < length result
         then shuffleFrom mathRandom i' (result[i := result ! nat j, nat j := result ! i]) w'
         else Inl SparseWrite))"

definition shuffleArray ::
  "('m \<Rightarrow> real \<times> 'm) \<Rightarrow> 'a list \<Rightarrow> 'm World \<Rightarrow> error + ('a list \<times> 'm World)" where
  "shuffleArray mathRandom array w = shuffleFrom mathRandom (length array - 1) array w"

subsection \<open>Filling a complete grid\<close>

text \<open>The scan \<open>for row ... for col ... if (grid[row][col] === 0)\<close> for the next empty cell.\<close>

definition firstEmpty :: "Grid \<Rightarrow> error + Position option" where
  "firstEmpty grid =
     firstE (\<lambda>(row, col).
        bindE (cellIs grid row col 0) (\<lambda>empty. Inr (if empty then Some (row, col) else None)))
       allPositions"

text \<open>
  \<open>fillGrid\<close> recurses without an evident bound, so the model carries fuel: the first
  argument bounds the depth of the recursion, and \<open>None\<close> means that the fuel ran out. The grid
  is mutated in place by the source and is passed through here. \<open>tryNumbers\<close> is the loop
  \<open>for (const num of numbers)\<close> in the cell \<open>(row, col)\<close>.
\<close>

fun fillGrid ::
    "('m \<Rightarrow> real \<times> 'm) \<Rightarrow> nat \<Rightarrow> Grid \<Rightarrow> 'm World \<Rightarrow> (error + (bool \<times> Grid \<times> 'm World)) option"
  and tryNumbers ::
    "('m \<Rightarrow> real \<times> 'm) \<Rightarrow> nat \<Rightarrow> Grid \<Rightarrow> nat \<Rightarrow> nat \<Rightarrow> CellValue list \<Rightarrow> 'm World
       \<Rightarrow> (error + (bool \<times> Grid \<times> 'm World)) option" where
  "fillGrid mathRandom 0 grid w = None"
| "fillGrid mathRandom (Suc n) grid w =
     (case firstEmpty grid of
        Inl e \<Rightarrow> Some (Inl e)
      | Inr None \<Rightarrow> Some (Inr (True, grid, w))
      | Inr (Some (row, col)) \<Rightarrow>
         (case shuffleArray mathRandom [1 ..< 10] w of
            Inl e \<Rightarrow> Some (Inl e)
          | Inr (numbers, w') \<Rightarrow> tryNumbers mathRandom n grid row col numbers w'))"
| "tryNumbers mathRandom n grid row col [] w = Some (Inr (False, grid, w))"
| "tryNumbers mathRandom n grid row col (num # nums) w =
     (case isValidPlacement grid row col num of
        Inl e \<Rightarrow> Some (Inl e)
      | Inr False \<Rightarrow> tryNumbers mathRandom n grid row col nums w
      | Inr True \<Rightarrow>
         (case setCell grid row col num of
            Inl e \<Rightarrow> Some (Inl e)
          | Inr grid1 \<Rightarrow>
             (case fillGrid mathRandom n grid1 w of
                None \<Rightarrow> None
              | Some (Inl e) \<Rightarrow> Some (Inl e)
              | Some (Inr (True, grid2, w2)) \<Rightarrow> Some (Inr (True, grid2, w2))
              | Some (Inr (False, grid2, w2)) \<Rightarrow>
                 (case setCell grid2 row col 0 of
                    Inl e \<Rightarrow> Some (Inl e)
                  | Inr grid3 \<Rightarrow> tryNumbers mathRandom n grid3 row col nums w2))))"

text \<open>\<open>generateCompleteGrid\<close> ignores the boolean and returns the grid.\<close>

definition generateCompleteGrid ::
  "('m \<Rightarrow> real \<times> 'm) \<Rightarrow> nat \<Rightarrow> 'm World \<Rightarrow> (error + (Grid \<times> 'm World)) option" where
  "generateCompleteGrid mathRandom n w =
     (case fillGrid mathRandom n createEmptyGrid w of
        None \<Rightarrow> None
      | Some (Inl e) \<Rightarrow> Some (Inl e)
      | Some (Inr (b, grid, w')) \<Rightarrow> Some (Inr (grid, w')))"

subsection \<open>Counting solutions\<close>

text \<open>
  \<open>countSolutions\<close> mutates the grid and the counter object \<open>count\<close>; both are passed through.
  \<open>countNums\<close> is the loop \<open>for (let num = 1; num <= 9; num++)\<close>. Fuel as for \<open>fillGrid\<close>.
\<close>

fun countSolutions :: "nat \<Rightarrow> Grid \<Rightarrow> nat \<Rightarrow> (error + (Grid \<times> nat)) option"
  and countNums ::
    "nat \<Rightarrow> Grid \<Rightarrow> nat \<Rightarrow> nat \<Rightarrow> nat \<Rightarrow> CellValue list \<Rightarrow> (error + (Grid \<times> nat)) option" where
  "countSolutions 0 grid count = None"
| "countSolutions (Suc n) grid count =
     (if count > 1 then Some (Inr (grid, count))
      else
        (case firstEmpty grid of
           Inl e \<Rightarrow> Some (Inl e)
         | Inr None \<Rightarrow> Some (Inr (grid, count + 1))
         | Inr (Some (row, col)) \<Rightarrow> countNums n grid count row col [1 ..< 10]))"
| "countNums n grid count row col [] = Some (Inr (grid, count))"
| "countNums n grid count row col (num # nums) =
     (case isValidPlacement grid row col num of
        Inl e \<Rightarrow> Some (Inl e)
      | Inr False \<Rightarrow> countNums n grid count row col nums
      | Inr True \<Rightarrow>
         (case setCell grid row col num of
            Inl e \<Rightarrow> Some (Inl e)
          | Inr grid1 \<Rightarrow>
             (case countSolutions n grid1 count of
                None \<Rightarrow> None
              | Some (Inl e) \<Rightarrow> Some (Inl e)
              | Some (Inr (grid2, count2)) \<Rightarrow>
                 (case setCell grid2 row col 0 of
                    Inl e \<Rightarrow> Some (Inl e)
                  | Inr grid3 \<Rightarrow>
                     if count2 > 1 then Some (Inr (grid3, count2))
                     else countNums n grid3 count2 row col nums))))"

definition hasUniqueSolution :: "nat \<Rightarrow> Grid \<Rightarrow> (error + bool) option" where
  "hasUniqueSolution n puzzle =
     (case countSolutions n (cloneGrid puzzle) 0 of
        None \<Rightarrow> None
      | Some (Inl e) \<Rightarrow> Some (Inl e)
      | Some (Inr (copy, count)) \<Rightarrow> Some (Inr (count = 1)))"

subsection \<open>Carving the puzzle\<close>

text \<open>The clue range \<open>{min, max}\<close> of each difficulty.\<close>

fun targetClues :: "Difficulty \<Rightarrow> nat \<times> nat" where
  "targetClues easy = (40, 45)"
| "targetClues medium = (32, 38)"
| "targetClues hard = (26, 31)"

definition targetRemoved :: "Difficulty \<Rightarrow> nat" where
  "targetRemoved difficulty =
     (case targetClues difficulty of (mn, mx) \<Rightarrow> 81 - (mn + mx) div 2)"

text \<open>The loop \<open>for (const [row, col] of shuffledPositions)\<close>. Restoring a cell whose old
  value was \<open>undefined\<close> would store \<open>undefined\<close> in the grid (\<open>SparseWrite\<close>).\<close>

fun removeLoop ::
  "nat \<Rightarrow> nat \<Rightarrow> Grid \<Rightarrow> nat \<Rightarrow> Position list \<Rightarrow> (error + (Grid \<times> nat)) option" where
  "removeLoop n target puzzle removed [] = Some (Inr (puzzle, removed))"
| "removeLoop n target puzzle removed ((row, col) # ps) =
     (if removed \<ge> target then Some (Inr (puzzle, removed))
      else
        (case getCell puzzle row col of
           Inl e \<Rightarrow> Some (Inl e)
         | Inr v \<Rightarrow>
            (case setCell puzzle row col 0 of
               Inl e \<Rightarrow> Some (Inl e)
             | Inr puzzle1 \<Rightarrow>
                (case hasUniqueSolution n puzzle1 of
                   None \<Rightarrow> None
                 | Some (Inl e) \<Rightarrow> Some (Inl e)
                 | Some (Inr True) \<Rightarrow> removeLoop n target puzzle1 (removed + 1) ps
                 | Some (Inr False) \<Rightarrow>
                    (case v of
                       None \<Rightarrow> Some (Inl SparseWrite)
                     | Some old \<Rightarrow>
                        (case setCell puzzle1 row col old of
                           Inl e \<Rightarrow> Some (Inl e)
                         | Inr puzzle2 \<Rightarrow> removeLoop n target puzzle2 removed ps))))))"

definition removeCells ::
  "('m \<Rightarrow> real \<times> 'm) \<Rightarrow> nat \<Rightarrow> Grid \<Rightarrow> Difficulty \<Rightarrow> 'm World
     \<Rightarrow> (error + ((Grid \<times> nat) \<times> 'm World)) option" where
  "removeCells mathRandom n solution difficulty w =
     (let puzzle = cloneGrid solution in
      case shuffleArray mathRandom allPositions w of
        Inl e \<Rightarrow> Some (Inl e)
      | Inr (shuffledPositions, w') \<Rightarrow>
         (case removeLoop n (targetRemoved difficulty) puzzle 0 shuffledPositions of
            None \<Rightarrow> None
          | Some (Inl e) \<Rightarrow> Some (Inl e)
          | Some (Inr r) \<Rightarrow> Some (Inr (r, w'))))"

definition verifyDifficulty :: "Grid \<Rightarrow> Difficulty \<Rightarrow> error + bool" where
  "verifyDifficulty puzzle difficulty =
     bindE (solvePuzzleWithTechniques puzzle (difficultyTechniques difficulty))
       (\<lambda>result. Inr (solved result))"

definition countClues :: "Grid \<Rightarrow> error + nat" where
  "countClues puzzle =
     bindE (filterE (\<lambda>(row, col). bindE (cellIs puzzle row col 0) (\<lambda>empty. Inr (\<not> empty)))
              allPositions)
       (\<lambda>filled. Inr (length filled))"

subsection \<open>Generating a puzzle\<close>

text \<open>The returned object \<open>{puzzle, solution}\<close>.\<close>

record PuzzlePair =
  thePuzzle :: Grid
  theSolution :: Grid

text \<open>One fill-and-carve round, as both the loop body and the fallback perform it.\<close>

definition fillAndCarve ::
  "('m \<Rightarrow> real \<times> 'm) \<Rightarrow> nat \<Rightarrow> Difficulty \<Rightarrow> 'm World
     \<Rightarrow> (error + (PuzzlePair \<times> 'm World)) option" where
  "fillAndCarve mathRandom n difficulty w =
     (case generateCompleteGrid mathRandom n w of
        None \<Rightarrow> None
      | Some (Inl e) \<Rightarrow> Some (Inl e)
      | Some (Inr (sol, w1)) \<Rightarrow>
         (case removeCells mathRandom n sol difficulty w1 of
            None \<Rightarrow> None
          | Some (Inl e) \<Rightarrow> Some (Inl e)
          | Some (Inr ((puz, removed), w2)) \<Rightarrow>
              Some (Inr (\<lparr> thePuzzle = puz, theSolution = sol \<rparr>, w2))))"

text \<open>The loop \<open>while (attempts < maxAttempts)\<close> with the fallback after it; \<open>attempts\<close> is
  the count before the increment at the head of the body.\<close>

function generateLoop ::
  "('m \<Rightarrow> real \<times> 'm) \<Rightarrow> nat \<Rightarrow> Difficulty \<Rightarrow> nat \<Rightarrow> 'm World
     \<Rightarrow> (error + (PuzzlePair \<times> 'm World)) option" where
  "generateLoop mathRandom n difficulty attempts w =
     (if attempts < 100
      then
        (case fillAndCarve mathRandom n difficulty w of
           None \<Rightarrow> None
         | Some (Inl e) \<Rightarrow> Some (Inl e)
         | Some (Inr (pair, w2)) \<Rightarrow>
            if difficulty = easy \<or> attempts + 1 > 10 then Some (Inr (pair, w2))
            else
              (case verifyDifficulty (thePuzzle pair) difficulty of
                 Inl e \<Rightarrow> Some (Inl e)
               | Inr True \<Rightarrow> Some (Inr (pair, w2))
               | Inr False \<Rightarrow> generateLoop mathRandom n difficulty (attempts + 1) w2))
      else fillAndCarve mathRandom n difficulty w)"
  by pat_completeness auto
termination
  by (relation "measure (\<lambda>(mathRandom, n, difficulty, attempts, w). 100 - attempts)") auto

declare generateLoop.simps [simp del]

definition generatePuzzle ::
  "('m \<Rightarrow> real \<times> 'm) \<Rightarrow> nat \<Rightarrow> Difficulty \<Rightarrow> 'm World
     \<Rightarrow> (error + (PuzzlePair \<times> 'm World)) option" where
  "generatePuzzle mathRandom n difficulty w = generateLoop mathRandom n difficulty 0 w"

subsection \<open>The daily puzzle\<close>

text \<open>
  \<open>Date\<close> and \<open>Number\<close> belong to the JavaScript runtime. The model takes them as parameters:
  \<open>toNumber\<close> is \<open>Number\<close> on strings, \<open>newDate\<close> is \<open>new Date(year, monthIndex, day)\<close> and
  \<open>today\<close> is \<open>new Date()\<close>. A date is known by its four getters (in local time); \<open>None\<close>
  stands for \<open>NaN\<close>, which is what an invalid date returns and what arithmetic on
  \<open>undefined\<close> yields.
\<close>

record JsDate =
  getFullYear :: "int option"
  getMonth :: "int option"
  getDate :: "int option"
  getDay :: "int option"

text \<open>The returned object \<open>{puzzle, solution, difficulty, date}\<close>.\<close>

record DailyPuzzle =
  dailyPuzzle :: Grid
  dailySolution :: Grid
  dailyDifficulty :: Difficulty
  dailyDate :: string

text \<open>\<open>String.prototype.split\<close> with a one-character separator.\<close>

fun splitOn :: "char \<Rightarrow> string \<Rightarrow> string list" where
  "splitOn c [] = [[]]"
| "splitOn c (x # xs) =
     (if x = c then [] # splitOn c xs
      else (case splitOn c xs of [] \<Rightarrow> [[x]] | y # ys \<Rightarrow> (x # y) # ys))"

text \<open>An element of the destructured array, \<open>undefined\<close> (\<open>NaN\<close> in arithmetic) past its end.\<close>

definition part :: "real option list \<Rightarrow> nat \<Rightarrow> real option" where
  "part xs i = (if i < length xs then xs ! i else None)"

text \<open>Template literals and \<open>String\<close> on a getter's value.\<close>

definition showNumber :: "int option \<Rightarrow> string" where
  "showNumber x =
     (case x of None \<Rightarrow> ''NaN''
      | Some i \<Rightarrow> if i < 0 then CHR ''-'' # showNat (nat (- i)) else showNat (nat i))"

definition padStart2 :: "string \<Rightarrow> string" where
  "padStart2 str = replicate (2 - length str) CHR ''0'' @ str"

text \<open>\<open>getFullYear() * 10000 + (getMonth() + 1) * 100 + getDate()\<close>.\<close>

definition dailySeed :: "JsDate \<Rightarrow> int option" where
  "dailySeed targetDate =
     (case (getFullYear targetDate, getMonth targetDate, getDate targetDate) of
        (Some y, Some m, Some d) \<Rightarrow> Some (y * 10000 + (m + 1) * 100 + d)
      | _ \<Rightarrow> None)"

text \<open>The choice of difficulty from \<open>getDay()\<close>, where 0 is Sunday and 6 is Saturday.\<close>

definition dayDifficulty :: "int option \<Rightarrow> Difficulty" where
  "dayDifficulty dayOfWeek =
     (if dayOfWeek = Some 1 \<or> dayOfWeek = Some 2 then easy
      else if dayOfWeek = Some 3 \<or> dayOfWeek = Some 4 then medium
      else hard)"

text \<open>The date the puzzle is generated for, with the string that is returned. An absent or empty
  \<open>dateStr\<close> is falsy and selects today's date.\<close>

definition dailyTarget ::
  "(string \<Rightarrow> real option) \<Rightarrow> (real option \<Rightarrow> real option \<Rightarrow> real option \<Rightarrow> JsDate)
     \<Rightarrow> JsDate \<Rightarrow> string option \<Rightarrow> JsDate \<times> string" where
  "dailyTarget toNumber newDate today dateStr =
     (if dateStr \<noteq> None \<and> dateStr \<noteq> Some []
      then (let ps = map toNumber (splitOn CHR ''-'' (the dateStr));
                year = part ps 0; month = part ps 1; day = part ps 2
            in (newDate year (map_option (\<lambda>m. m - 1) month) day, the dateStr))
      else (today,
            showNumber (getFullYear today) @ ''-''
              @ padStart2 (showNumber (map_option (\<lambda>m. m + 1) (getMonth today))) @ ''-''
              @ padStart2 (showNumber (getDate today))))"

definition generateDailyPuzzle ::
  "('m \<Rightarrow> real \<times> 'm) \<Rightarrow> (string \<Rightarrow> real option)
     \<Rightarrow> (real option \<Rightarrow> real option \<Rightarrow> real option \<Rightarrow> JsDate) \<Rightarrow> JsDate
     \<Rightarrow> nat \<Rightarrow> string option \<Rightarrow> 'm World \<Rightarrow> (error + (DailyPuzzle \<times> 'm World)) option" where
  "generateDailyPuzzle mathRandom toNumber newDate today n dateStr w =
     (case dailyTarget toNumber newDate today dateStr of (targetDate, dateString) \<Rightarrow>
        (let seed = dailySeed targetDate;
             w1 = setRandomFunction (SeededRandom seed) w;
             difficulty = dayDifficulty (getDay targetDate)
         in case generatePuzzle mathRandom n difficulty w1 of
              None \<Rightarrow> None
            | Some (Inl e) \<Rightarrow> Some (Inl e)
            | Some (Inr (pair, w2)) \<Rightarrow>
                Some (Inr (\<lparr> dailyPuzzle = thePuzzle pair, dailySolution = theSolution pair,
                              dailyDifficulty = difficulty, dailyDate = dateString \<rparr>,
                           resetRandomFunction w2))))"

section \<open>Hint facade\<close>

definition boardToGrid :: "BoardState \<Rightarrow> Grid" where
  "boardToGrid board = map (\<lambda>row. map cellValue row) board"

definition getHint :: "BoardState \<Rightarrow> error + Hint option" where
  "getHint board = findNextHint (boardToGrid board) defaultTechniques"

section \<open>Well-formed inputs\<close>

text \<open>A grid is a 9x9 matrix of values in \<open>0..9\<close>.\<close>

definition wfGrid :: "Grid \<Rightarrow> bool" where
  "wfGrid g = (length g = 9 \<and> list_all (\<lambda>row. length row = 9 \<and> list_all (\<lambda>v. v \<le> 9) row) g)"

definition wfBoard :: "BoardState \<Rightarrow> bool" where
  "wfBoard b = (length b = 9 \<and> list_all (\<lambda>row. length row = 9) b)"

text \<open>Two different cells share a unit when they lie in the same row, column or box.\<close>

definition sameUnit :: "Position \<Rightarrow> Position \<Rightarrow> bool" where
  "sameUnit p q =
     (fst p = fst q \<or> snd p = snd q \<or> (fst p div 3 = fst q div 3 \<and> snd p div 3 = snd q div 3))"

definition cellOf :: "Grid \<Rightarrow> Position \<Rightarrow> CellValue" where
  "cellOf g p = g ! fst p ! snd p"

text \<open>A conflict: two equal non-zero values in one row, column or box.\<close>

definition conflict :: "Grid \<Rightarrow> Position \<Rightarrow> Position \<Rightarrow> bool" where
  "conflict g p q = (p \<noteq> q \<and> sameUnit p q \<and> cellOf g p \<noteq> 0 \<and> cellOf g p = cellOf g q)"

definition noConflicts :: "Grid \<Rightarrow> bool" where
  "noConflicts g = list_all (\<lambda>p. list_all (\<lambda>q. \<not> conflict g p q) allPositions) allPositions"

definition isComplete :: "Grid \<Rightarrow> bool" where
  "isComplete g = list_all (\<lambda>p. cellOf g p \<noteq> 0) allPositions"

definition exampleSolution :: Grid where
  "exampleSolution =
    [[1,2,3, 4,5,6, 7,8,9],
     [4,5,6, 7,8,9, 1,2,3],
     [7,8,9, 1,2,3, 4,5,6],
     [2,3,4, 5,6,7, 8,9,1],
     [5,6,7, 8,9,1, 2,3,4],
     [8,9,1, 2,3,4, 5,6,7],
     [3,4,5, 6,7,8, 9,1,2],
     [6,7,8, 9,1,2, 3,4,5],
     [9,1,2, 3,4,5, 6,7,8]]"

text \<open>The value \<open>n\<close> occurs in no other cell of the row, column or box of \<open>(r, c)\<close>.\<close>

definition freeFor :: "Grid \<Rightarrow> nat \<Rightarrow> nat \<Rightarrow> CellValue \<Rightarrow> bool" where
  "freeFor g r c n =
     (\<forall>q\<in>set allPositions. q \<noteq> (r, c) \<and> sameUnit (r, c) q \<longrightarrow> cellOf g q \<noteq> n)"


text \<open>A filled cell of the board whose value differs from the solution.\<close>

definition mismatch :: "BoardState \<Rightarrow> Grid \<Rightarrow> Position \<Rightarrow> bool" where
  "mismatch board solution p =
     (cellValue (board ! fst p ! snd p) \<noteq> 0
      \<and> cellValue (board ! fst p ! snd p) \<noteq> solution ! fst p ! snd p)"

definition examplePuzzle :: Grid where
  "examplePuzzle = exampleSolution[0 := [0,2,3, 4,0,6, 7,8,9], 4 := [5,6,7, 8,0,1, 2,3,4]]"

text \<open>The board of \<open>examplePuzzle\<close> after the player has entered a wrong 5 in the top-left cell.\<close>

definition exampleBoard :: BoardState where
  "exampleBoard = (initializeBoard examplePuzzle)
     [0 := (initializeBoard examplePuzzle ! 0)
        [0 := (initializeBoard examplePuzzle ! 0 ! 0) \<lparr> cellValue := 5 \<rparr> ]]"

subsection \<open>Notions used to state the detector's behaviour\<close>

text \<open>The candidate table of a 9x9 grid.\<close>

definition candidatesOf :: "Grid \<Rightarrow> nat \<Rightarrow> nat \<Rightarrow> nat list" where
  "candidatesOf g r c = (if g ! r ! c = 0 then filter (freeFor g r c) [1 ..< 10] else [])"

definition candTable :: "Grid \<Rightarrow> Candidates" where
  "candTable g = map (\<lambda>r. map (\<lambda>c. candidatesOf g r c) [0 ..< 9]) [0 ..< 9]"

text \<open>The hint \<open>findNakedSingle\<close> builds for a cell.\<close>

definition nakedSingleHint :: "Grid \<Rightarrow> Candidates \<Rightarrow> Position \<Rightarrow> Hint" where
  "nakedSingleHint g cands p =
     \<lparr> technique = naked_single,
       description = ''Cell can only contain '' @ showNat (cands ! fst p ! snd p ! 0),
       targetCell = p,
       targetValue = cands ! fst p ! snd p ! 0,
       highlightCells = p # take 5 (filter (\<lambda>q. cellOf g q \<noteq> 0) (getRelatedCells (fst p) (snd p))),
       highlightRegion = None \<rparr>"

definition isNakedSingle :: "Grid \<Rightarrow> Candidates \<Rightarrow> Position \<Rightarrow> bool" where
  "isNakedSingle g cands p = (cellOf g p = 0 \<and> length (cands ! fst p ! snd p) = 1)"

text \<open>Row-major order on positions.\<close>

definition before :: "Position \<Rightarrow> Position \<Rightarrow> bool" where
  "before q p = (fst q < fst p \<or> (fst q = fst p \<and> snd q < snd p))"

definition goodHint :: "Hint \<Rightarrow> bool" where
  "goodHint h = (fst (targetCell h) < 9 \<and> snd (targetCell h) < 9
                 \<and> 1 \<le> targetValue h \<and> targetValue h \<le> 9)"

definition okRes :: "error + Hint option \<Rightarrow> bool" where
  "okRes m = (\<exists>x. m = Inr x \<and> (\<forall>h. x = Some h \<longrightarrow> goodHint h))"

definition orderingPuzzle :: Grid where
  "orderingPuzzle = exampleSolution[0 := [1,2,3, 4,0,6, 7,8,9], 4 := [5,6,7, 8,9,0, 2,3,4]]"

definition exampleHint :: Hint where
  "exampleHint = \<lparr> technique = naked_single, description = ''Cell can only contain 1'',
      targetCell = (0, 0), targetValue = 1,
      highlightCells = [(0, 0), (0, 1), (0, 2), (0, 3), (0, 5), (0, 6)],
      highlightRegion = None \<rparr>"

subsection \<open>Notions used to state the generator's behaviour\<close>

text \<open>
  The contract of \<open>Math.random\<close>: a number in \<open>[0, 1)\<close>. A grid \<open>s\<close> extends \<open>g\<close> when it
  agrees with \<open>g\<close> on every filled cell of \<open>g\<close>; the completions of \<open>g\<close> are the complete
  conflict-free 9x9 grids extending it.
\<close>

definition rndRange :: "('m \<Rightarrow> real \<times> 'm) \<Rightarrow> bool" where
  "rndRange mathRandom = (\<forall>m. 0 \<le> fst (mathRandom m) \<and> fst (mathRandom m) < 1)"

definition putCell :: "Grid \<Rightarrow> Position \<Rightarrow> CellValue \<Rightarrow> Grid" where
  "putCell g p v = g[fst p := (g ! fst p)[snd p := v]]"

definition extendsGrid :: "Grid \<Rightarrow> Grid \<Rightarrow> bool" where
  "extendsGrid s g = (\<forall>p\<in>set allPositions. cellOf g p \<noteq> 0 \<longrightarrow> cellOf s p = cellOf g p)"

definition solutionGrid :: "Grid \<Rightarrow> bool" where
  "solutionGrid s = (wfGrid s \<and> isComplete s \<and> noConflicts s)"

definition completions :: "Grid \<Rightarrow> Grid set" where
  "completions g = {s. solutionGrid s \<and> extendsGrid s g}"

definition emptyCells :: "Grid \<Rightarrow> Position set" where
  "emptyCells g = {p \<in> set allPositions. cellOf g p = 0}"

definition numEmpty :: "Grid \<Rightarrow> nat" where
  "numEmpty g = card (emptyCells g)"

definition fillSpec :: "Grid \<Rightarrow> (error + (bool \<times> Grid \<times> 'm World)) option \<Rightarrow> bool" where
  "fillSpec g r =
     (\<exists>b g' w'. r = Some (Inr (b, g', w'))
        \<and> (b \<longrightarrow> solutionGrid g' \<and> extendsGrid g' g)
        \<and> (\<not> b \<longrightarrow> g' = g \<and> completions g = {}))"

definition trySpec ::
  "Grid \<Rightarrow> Position \<Rightarrow> CellValue list \<Rightarrow> (error + (bool \<times> Grid \<times> 'm World)) option \<Rightarrow> bool" where
  "trySpec g p nums r =
     (\<exists>b g' w'. r = Some (Inr (b, g', w'))
        \<and> (b \<longrightarrow> solutionGrid g' \<and> extendsGrid g' g)
        \<and> (\<not> b \<longrightarrow> g' = g \<and> (\<forall>v\<in>set nums. completions (putCell g p v) = {})))"

definition carved :: "Grid \<Rightarrow> Grid \<Rightarrow> bool" where
  "carved sol puz = (wfGrid puz \<and> extendsGrid sol puz \<and> completions puz = {sol})"

text \<open>What every returned pair satisfies.\<close>

definition goodPair :: "Difficulty \<Rightarrow> PuzzlePair \<Rightarrow> bool" where
  "goodPair d pair =
     (solutionGrid (theSolution pair) \<and> carved (theSolution pair) (thePuzzle pair)
      \<and> numEmpty (thePuzzle pair) \<le> targetRemoved d)"

section \<open>Facts about the grid primitives\<close>

declare upt_rec_numeral [simp del]

lemma bindE_Inr [simp]: "bindE (Inr x) f = f x"
  by (simp add: bindE_def)

lemma bindE_Inl [simp]: "bindE (Inl e) f = Inl e"
  by (simp add: bindE_def)

lemma anyE_Inr:
  "(\<And>x. x \<in> set xs \<Longrightarrow> p x = Inr (q x)) \<Longrightarrow> anyE p xs = Inr (\<exists>x\<in>set xs. q x)"
  by (induction xs) auto

lemma filterE_Inr:
  "(\<And>x. x \<in> set xs \<Longrightarrow> p x = Inr (q x)) \<Longrightarrow> filterE p xs = Inr (filter q xs)"
  by (induction xs) auto

lemma mapE_Inr:
  "(\<And>x. x \<in> set xs \<Longrightarrow> f x = Inr (g x)) \<Longrightarrow> mapE f xs = Inr (map g xs)"
  by (induction xs) auto

lemma wfGrid_length: "wfGrid g \<Longrightarrow> length g = 9"
  by (simp add: wfGrid_def)

lemma wfGrid_row: "wfGrid g \<Longrightarrow> r < 9 \<Longrightarrow> length (g ! r) = 9"
  by (simp add: wfGrid_def list_all_length)

lemma wfGrid_cell: "wfGrid g \<Longrightarrow> r < 9 \<Longrightarrow> c < 9 \<Longrightarrow> g ! r ! c \<le> 9"
  by (simp add: wfGrid_def list_all_length)

lemma getCell_wf: "wfGrid g \<Longrightarrow> r < 9 \<Longrightarrow> c < 9 \<Longrightarrow> getCell g r c = Inr (Some (g ! r ! c))"
  by (simp add: getCell_def wfGrid_length wfGrid_row)

lemma cellIs_wf: "wfGrid g \<Longrightarrow> r < 9 \<Longrightarrow> c < 9 \<Longrightarrow> cellIs g r c n = Inr (g ! r ! c = n)"
  by (simp add: cellIs_def getCell_wf)

lemma set_allPositions: "set allPositions = {(r, c). r < 9 \<and> c < 9}"
  by (auto simp: allPositions_def)

lemma set_boxRange: "set (boxRange br bc) = {(r, c). br \<le> r \<and> r < br + 3 \<and> bc \<le> c \<and> c < bc + 3}"
  by (auto simp: boxRange_def)

lemma box_member:
  "r < 9 \<Longrightarrow> c < 9 \<Longrightarrow>
   (r', c') \<in> set (boxRange ((r div 3) * 3) ((c div 3) * 3))
     \<longleftrightarrow> r' < 9 \<and> c' < 9 \<and> r' div 3 = r div 3 \<and> c' div 3 = c div 3"
  unfolding set_boxRange by auto presburger+

lemma freeFor_iff:
  assumes rc: "r < 9" "c < 9"
  shows "freeFor g r c n \<longleftrightarrow>
     (\<forall>c'<9. c' \<noteq> c \<longrightarrow> g ! r ! c' \<noteq> n) \<and>
     (\<forall>r'<9. r' \<noteq> r \<longrightarrow> g ! r' ! c \<noteq> n) \<and>
     (\<forall>r'<9. \<forall>c'<9. r' div 3 = r div 3 \<and> c' div 3 = c div 3 \<and> (r' \<noteq> r \<or> c' \<noteq> c)
         \<longrightarrow> g ! r' ! c' \<noteq> n)" (is "?L = (?A \<and> ?B \<and> ?C)")
proof -
  have L: "?L \<longleftrightarrow> (\<forall>r' c'. r' < 9 \<and> c' < 9 \<and> (r' \<noteq> r \<or> c' \<noteq> c)
      \<and> (r = r' \<or> c = c' \<or> (r div 3 = r' div 3 \<and> c div 3 = c' div 3)) \<longrightarrow> g ! r' ! c' \<noteq> n)"
    unfolding freeFor_def set_allPositions sameUnit_def cellOf_def
    by (simp add: split_paired_all Ball_def) blast
  show ?thesis unfolding L
  proof (intro iffI conjI allI impI)
    assume H: "?A \<and> ?B \<and> ?C"
    fix r' c'
    assume a: "r' < 9 \<and> c' < 9 \<and> (r' \<noteq> r \<or> c' \<noteq> c)
      \<and> (r = r' \<or> c = c' \<or> (r div 3 = r' div 3 \<and> c div 3 = c' div 3))"
    then consider "r = r'" "c' \<noteq> c" | "c = c'" "r' \<noteq> r"
      | "r div 3 = r' div 3" "c div 3 = c' div 3" "r' \<noteq> r \<or> c' \<noteq> c"
      by blast
    then show "g ! r' ! c' \<noteq> n"
    proof cases
      case 1 with H a show ?thesis by metis
    next
      case 2 with H a show ?thesis by metis
    next
      case 3 with H a show ?thesis by metis
    qed
  qed (use rc in metis)+
qed

lemma isValidPlacement_wf:
  assumes "wfGrid g" "r < 9" "c < 9"
  shows "isValidPlacement g r c n = Inr (n = 0 \<or> freeFor g r c n)"
proof (cases "n = 0")
  case True
  then show ?thesis by (simp add: isValidPlacement_def)
next
  case False
  have row: "anyE (\<lambda>c'. if c' \<noteq> c then cellIs g r c' n else Inr False) [0 ..< 9]
      = Inr (\<exists>c'\<in>set [0 ..< 9]. c' \<noteq> c \<and> g ! r ! c' = n)"
    by (rule anyE_Inr) (use assms in \<open>simp add: cellIs_wf\<close>)
  have col: "anyE (\<lambda>r'. if r' \<noteq> r then cellIs g r' c n else Inr False) [0 ..< 9]
      = Inr (\<exists>r'\<in>set [0 ..< 9]. r' \<noteq> r \<and> g ! r' ! c = n)"
    by (rule anyE_Inr) (use assms in \<open>simp add: cellIs_wf\<close>)
  have box: "anyE (\<lambda>(r', c'). if r' \<noteq> r \<or> c' \<noteq> c then cellIs g r' c' n else Inr False)
        (boxRange ((r div 3) * 3) ((c div 3) * 3))
      = Inr (\<exists>q\<in>set (boxRange ((r div 3) * 3) ((c div 3) * 3)).
               (case q of (r', c') \<Rightarrow> (r' \<noteq> r \<or> c' \<noteq> c) \<and> g ! r' ! c' = n))"
  proof (rule anyE_Inr)
    fix x assume x: "x \<in> set (boxRange ((r div 3) * 3) ((c div 3) * 3))"
    obtain r' c' where [simp]: "x = (r', c')" by (cases x)
    from x assms have "r' < 9" "c' < 9" by (simp_all add: box_member)
    with assms show "(case x of (r', c') \<Rightarrow>
        if r' \<noteq> r \<or> c' \<noteq> c then cellIs g r' c' n else Inr False)
      = Inr (case x of (r', c') \<Rightarrow> (r' \<noteq> r \<or> c' \<noteq> c) \<and> g ! r' ! c' = n)"
      by (simp add: cellIs_wf)
  qed
  have boxq: "(\<exists>q\<in>set (boxRange ((r div 3) * 3) ((c div 3) * 3)).
               (case q of (r', c') \<Rightarrow> (r' \<noteq> r \<or> c' \<noteq> c) \<and> g ! r' ! c' = n))
     \<longleftrightarrow> (\<exists>r'<9. \<exists>c'<9. r' div 3 = r div 3 \<and> c' div 3 = c div 3 \<and> (r' \<noteq> r \<or> c' \<noteq> c)
         \<and> g ! r' ! c' = n)"
    using assms(2,3) by (simp add: Bex_def split_paired_Ex box_member)
  have "isValidPlacement g r c n =
      Inr (\<not> (\<exists>c'\<in>set [0 ..< 9]. c' \<noteq> c \<and> g ! r ! c' = n)
         \<and> \<not> (\<exists>r'\<in>set [0 ..< 9]. r' \<noteq> r \<and> g ! r' ! c = n)
         \<and> \<not> (\<exists>q\<in>set (boxRange ((r div 3) * 3) ((c div 3) * 3)).
               (case q of (r', c') \<Rightarrow> (r' \<noteq> r \<or> c' \<noteq> c) \<and> g ! r' ! c' = n)))"
    unfolding isValidPlacement_def getBoxStart_def prod.case row col box
    using False by simp
  also have "(\<not> (\<exists>c'\<in>set [0 ..< 9]. c' \<noteq> c \<and> g ! r ! c' = n)
         \<and> \<not> (\<exists>r'\<in>set [0 ..< 9]. r' \<noteq> r \<and> g ! r' ! c = n)
         \<and> \<not> (\<exists>q\<in>set (boxRange ((r div 3) * 3) ((c div 3) * 3)).
               (case q of (r', c') \<Rightarrow> (r' \<noteq> r \<or> c' \<noteq> c) \<and> g ! r' ! c' = n)))
       = freeFor g r c n"
    unfolding boxq freeFor_iff [OF assms(2,3)] by (simp add: Bex_def) blast
  finally show ?thesis using False by simp
qed

lemma noConflicts_iff:
  "noConflicts g \<longleftrightarrow> (\<forall>p\<in>set allPositions. \<forall>q\<in>set allPositions. \<not> conflict g p q)"
  by (simp add: noConflicts_def list_all_iff)

lemma noConflicts_freeFor:
  assumes "noConflicts g" "r < 9" "c < 9" "g ! r ! c \<noteq> 0"
  shows "freeFor g r c (g ! r ! c)"
  unfolding freeFor_def
proof (intro ballI impI)
  fix q assume q: "q \<in> set allPositions" "q \<noteq> (r, c) \<and> sameUnit (r, c) q"
  from assms(2,3) have "(r, c) \<in> set allPositions" by (simp add: set_allPositions)
  with assms(1) q(1) have "\<not> conflict g (r, c) q" by (simp add: noConflicts_iff)
  with q(2) assms(4) show "cellOf g q \<noteq> g ! r ! c"
    by (auto simp: conflict_def cellOf_def)
qed

section \<open>Facts about the technique detector\<close>

lemma bindE_eq_Inr: "bindE m f = Inr y \<longleftrightarrow> (\<exists>x. m = Inr x \<and> f x = Inr y)"
  by (cases m) simp_all

lemma firstE_Some_prop:
  assumes "firstE f xs = Inr (Some y)"
    and "\<And>x. x \<in> set xs \<Longrightarrow> f x = Inr (Some y) \<Longrightarrow> P"
  shows P
  using assms
  by (induction xs) (auto split: sum.splits option.splits)

lemma orElseE_Some:
  "orElseE m rest = Inr (Some y) \<longleftrightarrow> m = Inr (Some y) \<or> (m = Inr None \<and> rest = Inr (Some y))"
  by (cases m) (auto simp: orElseE_def split: option.splits)

lemma findNakedSingle_technique:
  assumes "findNakedSingle g cands = Inr (Some h)"
  shows "technique h = naked_single"
  using assms unfolding findNakedSingle_def
  by (elim firstE_Some_prop) (auto simp: bindE_eq_Inr Let_def split: if_splits)

lemma hiddenInRow_technique: "hiddenInRow g cands n r = Inr (Some h) \<Longrightarrow> technique h = hidden_single"
  by (auto simp: hiddenInRow_def bindE_eq_Inr split: if_splits)

lemma hiddenInCol_technique: "hiddenInCol g cands n c = Inr (Some h) \<Longrightarrow> technique h = hidden_single"
  by (auto simp: hiddenInCol_def bindE_eq_Inr split: if_splits)

lemma hiddenInBox_technique: "hiddenInBox g cands n b = Inr (Some h) \<Longrightarrow> technique h = hidden_single"
  by (auto simp: hiddenInBox_def bindE_eq_Inr split: if_splits prod.splits)

lemma findHiddenSingle_technique:
  assumes "findHiddenSingle g cands = Inr (Some h)"
  shows "technique h = hidden_single"
  using assms unfolding findHiddenSingle_def
  apply (elim firstE_Some_prop)
  apply (simp only: orElseE_Some)
  apply (elim disjE conjE)
    apply (erule firstE_Some_prop, erule hiddenInRow_technique)
   apply (erule firstE_Some_prop, erule hiddenInCol_technique)
  apply (erule firstE_Some_prop, erule hiddenInBox_technique)
  done

lemma nakedPairAt_technique: "nakedPairAt g cands u pq = Inr (Some h) \<Longrightarrow> technique h = naked_pair"
  by (auto simp: nakedPairAt_def bindE_eq_Inr Let_def split: if_splits prod.splits)

lemma findNakedPair_technique:
  assumes "findNakedPair g cands = Inr (Some h)"
  shows "technique h = naked_pair"
  using assms unfolding findNakedPair_def
  apply (elim firstE_Some_prop)
  apply (simp only: bindE_eq_Inr)
  apply (elim exE conjE)
  apply (erule firstE_Some_prop, erule nakedPairAt_technique)
  done

lemma findNextHint_cases:
  assumes "findNextHint g allowed = Inr (Some h)"
  obtains cands where "initializeCandidates g = Inr cands"
    and "(naked_single \<in> set allowed \<and> findNakedSingle g cands = Inr (Some h))
       \<or> ((naked_single \<notin> set allowed \<or> findNakedSingle g cands = Inr None)
           \<and> hidden_single \<in> set allowed \<and> findHiddenSingle g cands = Inr (Some h))
       \<or> ((naked_single \<notin> set allowed \<or> findNakedSingle g cands = Inr None)
           \<and> (hidden_single \<notin> set allowed \<or> findHiddenSingle g cands = Inr None)
           \<and> naked_pair \<in> set allowed \<and> findNakedPair g cands = Inr (Some h))"
  using assms unfolding findNextHint_def bindE_eq_Inr orElseE_Some
  by (auto split: if_splits)

lemma initializeCandidates_wf:
  assumes "wfGrid g"
  shows "initializeCandidates g = Inr (candTable g)"
  unfolding initializeCandidates_def candTable_def
proof (rule mapE_Inr, rule mapE_Inr)
  fix r c assume "r \<in> set [0 ..< 9]" "c \<in> set [0 ..< 9]"
  then have rc: "r < 9" "c < 9" by simp_all
  have "filterE (isValidPlacement g r c) [1 ..< 10] = Inr (filter (freeFor g r c) [1 ..< 10])"
    by (rule filterE_Inr) (use assms rc in \<open>auto simp: isValidPlacement_wf\<close>)
  with assms rc show "bindE (cellIs g r c 0) (\<lambda>empty.
           if empty then filterE (\<lambda>num. isValidPlacement g r c num) [1 ..< 10] else Inr [])
      = Inr (candidatesOf g r c)"
    by (simp add: cellIs_wf candidatesOf_def)
qed

lemma candTable_nth: "r < 9 \<Longrightarrow> c < 9 \<Longrightarrow> candTable g ! r ! c = candidatesOf g r c"
  by (simp add: candTable_def)

lemma candAt_candTable:
  "r < 9 \<Longrightarrow> c < 9 \<Longrightarrow> candAt (candTable g) r c = Inr (candidatesOf g r c)"
  by (simp add: candAt_def getCell_def candTable_def)

lemma candidatesOf_range: "n \<in> set (candidatesOf g r c) \<Longrightarrow> 1 \<le> n \<and> n \<le> 9"
  by (auto simp: candidatesOf_def split: if_splits)

lemma firstE_find:
  "(\<And>x. x \<in> set xs \<Longrightarrow> f x = Inr (if P x then Some (h x) else None))
     \<Longrightarrow> firstE f xs = Inr (map_option h (find P xs))"
  by (induction xs) auto

lemma set_foldl_setAdd: "set (foldl setAdd acc xs) = set acc \<union> set xs"
  by (induction xs arbitrary: acc) auto

lemma set_getRelatedCells_range:
  assumes "r < 9" "c < 9" "q \<in> set (getRelatedCells r c)"
  shows "fst q < 9 \<and> snd q < 9"
proof -
  note fold = set_foldl_setAdd
  from assms(3) have "q \<in> (\<lambda>c'. (r, c')) ` {0..<9} \<union> (\<lambda>r'. (r', c)) ` {0..<9}
      \<union> set (boxRange ((r div 3) * 3) ((c div 3) * 3))"
    by (auto simp: getRelatedCells_def Let_def getBoxStart_def fold)
  with assms(1,2) show ?thesis
    by (cases q) (auto simp: box_member)
qed

lemma findNakedSingle_wf:
  assumes "wfGrid g"
  shows "findNakedSingle g (candTable g)
     = Inr (map_option (nakedSingleHint g (candTable g)) (find (isNakedSingle g (candTable g)) allPositions))"
  unfolding findNakedSingle_def
proof (rule firstE_find)
  fix p assume "p \<in> set allPositions"
  then obtain r c where p: "p = (r, c)" "r < 9" "c < 9" by (auto simp: set_allPositions)
  have rel: "filterE (cellFilled g) (getRelatedCells r c)
      = Inr (filter (\<lambda>q. cellOf g q \<noteq> 0) (getRelatedCells r c))"
  proof (rule filterE_Inr)
    fix q assume "q \<in> set (getRelatedCells r c)"
    with p have "fst q < 9 \<and> snd q < 9" by (simp add: set_getRelatedCells_range)
    with assms show "cellFilled g q = Inr (cellOf g q \<noteq> 0)"
      by (simp add: cellFilled_def cellIs_wf cellOf_def)
  qed
  show "(case p of (row, col) \<Rightarrow>
       bindE (cellIs g row col 0) (\<lambda>empty.
         if \<not> empty then Inr None
         else bindE (candAt (candTable g) row col) (\<lambda>cs.
           if length cs = 1
           then (let v = cs ! 0 in
                 bindE (filterE (cellFilled g) (getRelatedCells row col)) (\<lambda>relatedCells.
                   Inr (Some \<lparr> technique = naked_single,
                               description = ''Cell can only contain '' @ showNat v,
                               targetCell = (row, col),
                               targetValue = v,
                               highlightCells = (row, col) # take 5 relatedCells,
                               highlightRegion = None \<rparr>)))
           else Inr None)))
     = Inr (if isNakedSingle g (candTable g) p then Some (nakedSingleHint g (candTable g) p) else None)"
    using assms p
    by (simp add: cellIs_wf candAt_candTable candTable_nth rel isNakedSingle_def
        nakedSingleHint_def cellOf_def Let_def)
qed

lemma allPositions_nth: "i < 81 \<Longrightarrow> allPositions ! i = (i div 9, i mod 9)"
  by (simp add: allPositions_def List.product_nth)

lemma length_allPositions: "length allPositions = 81"
  by (simp add: allPositions_def)

lemma find_allPositions_first:
  assumes "r < 9" "c < 9" "P (r, c)"
    and "\<And>q. q \<in> set allPositions \<Longrightarrow> before q (r, c) \<Longrightarrow> \<not> P q"
  shows "find P allPositions = Some (r, c)"
proof -
  let ?i = "r * 9 + c"
  from assms(1,2) have i: "?i < 81" by simp
  have at: "allPositions ! ?i = (r, c)" using i assms(2) by (simp add: allPositions_nth)
  have "\<not> P (allPositions ! j)" if "j < ?i" for j
  proof -
    from that i have j: "j < 81" by simp
    have "before (j div 9, j mod 9) (r, c)"
    proof (cases "j div 9 < r")
      case True then show ?thesis by (simp add: before_def)
    next
      case False
      have "j div 9 \<le> ?i div 9" using that by (simp add: div_le_mono)
      also have "?i div 9 = r" using assms(2) by simp
      finally have eq: "j div 9 = r" using False by simp
      have "j = (j div 9) * 9 + j mod 9" by simp
      with eq that have "j mod 9 < c" by linarith
      with eq show ?thesis by (simp add: before_def)
    qed
    moreover have "(j div 9, j mod 9) \<in> set allPositions"
      using j by (simp add: set_allPositions)
    ultimately show ?thesis using assms(4) j by (simp add: allPositions_nth)
  qed
  with at assms(3) i show ?thesis
    unfolding find_Some_iff length_allPositions [symmetric]
    by (intro exI [of _ ?i]) (simp add: length_allPositions)
qed

lemma find_allPositions_Some:
  assumes "find P allPositions = Some p"
  shows "p \<in> set allPositions \<and> P p \<and> (\<forall>q\<in>set allPositions. before q p \<longrightarrow> \<not> P q)"
proof -
  from assms obtain i where i: "i < 81" "P (allPositions ! i)" "p = allPositions ! i"
    "\<forall>j<i. \<not> P (allPositions ! j)"
    unfolding find_Some_iff by (auto simp: length_allPositions)
  have p: "p = (i div 9, i mod 9)" using i by (simp add: allPositions_nth)
  have "\<not> P q" if q: "q \<in> set allPositions" "before q p" for q
  proof -
    obtain r c where rc: "q = (r, c)" "r < 9" "c < 9" using q(1) by (auto simp: set_allPositions)
    let ?j = "r * 9 + c"
    have lt: "?j < i"
    proof -
      define a b where "a = i div 9" and "b = i mod 9"
      have eq: "i = a * 9 + b" by (simp add: a_def b_def)
      from q(2) have "r < a \<or> (r = a \<and> c < b)"
        by (simp add: before_def p rc a_def b_def)
      with rc(3) have "r * 9 + c < a * 9 + b" by arith
      with eq show ?thesis by simp
    qed
    with i(1) have "allPositions ! ?j = (r, c)" using rc(3) by (simp add: allPositions_nth)
    with i(4) lt rc show ?thesis by metis
  qed
  moreover have "p \<in> set allPositions" using i(1) unfolding p by (simp add: set_allPositions)
  ultimately show ?thesis using i by blast
qed

lemma okRes_None [simp]: "okRes (Inr None)"
  by (simp add: okRes_def)

lemma okRes_Some [simp]: "okRes (Inr (Some h)) = goodHint h"
  by (simp add: okRes_def)

lemma firstE_ok: "(\<And>x. x \<in> set xs \<Longrightarrow> okRes (f x)) \<Longrightarrow> okRes (firstE f xs)"
proof (induction xs)
  case Nil
  then show ?case by simp
next
  case (Cons a xs)
  from Cons.prems [of a] obtain x where x: "f a = Inr x" "\<forall>h. x = Some h \<longrightarrow> goodHint h"
    by (auto simp: okRes_def)
  show ?case
  proof (cases x)
    case None
    with x Cons show ?thesis by simp
  next
    case (Some h)
    with x show ?thesis by simp
  qed
qed

lemma orElseE_ok: "okRes m \<Longrightarrow> okRes rest \<Longrightarrow> okRes (orElseE m rest)"
  by (auto simp: okRes_def orElseE_def split: option.splits)

lemma isPossible_wf:
  "wfGrid g \<Longrightarrow> r < 9 \<Longrightarrow> c < 9 \<Longrightarrow>
   isPossible g (candTable g) n r c = Inr (g ! r ! c = 0 \<and> n \<in> set (candidatesOf g r c))"
  by (simp add: isPossible_def cellIs_wf candAt_candTable)

lemma nth_filter_in: "length (filter P xs) = 1 \<Longrightarrow> filter P xs ! 0 \<in> set xs"
proof -
  assume "length (filter P xs) = 1"
  then have "filter P xs ! 0 \<in> set (filter P xs)" by (intro nth_mem) simp
  then show ?thesis by simp
qed

lemma hiddenInRow_ok:
  assumes "wfGrid g" "row < 9" "1 \<le> n" "n \<le> 9"
  shows "okRes (hiddenInRow g (candTable g) n row)"
proof -
  let ?P = "\<lambda>col. g ! row ! col = 0 \<and> n \<in> set (candidatesOf g row col)"
  have f: "filterE (\<lambda>col. isPossible g (candTable g) n row col) [0 ..< 9] = Inr (filter ?P [0 ..< 9])"
    by (rule filterE_Inr) (use assms in \<open>simp add: isPossible_wf\<close>)
  show ?thesis
  proof (cases "length (filter ?P [0 ..< 9]) = 1")
    case True
    then have "filter ?P [0 ..< 9] ! 0 \<in> set [0 ..< 9]" by (rule nth_filter_in)
    then have "filter ?P [0 ..< 9] ! 0 < 9" by simp
    with True assms show ?thesis by (simp add: hiddenInRow_def f goodHint_def)
  next
    case False
    then show ?thesis by (simp add: hiddenInRow_def f)
  qed
qed

lemma hiddenInCol_ok:
  assumes "wfGrid g" "col < 9" "1 \<le> n" "n \<le> 9"
  shows "okRes (hiddenInCol g (candTable g) n col)"
proof -
  let ?P = "\<lambda>row. g ! row ! col = 0 \<and> n \<in> set (candidatesOf g row col)"
  have f: "filterE (\<lambda>row. isPossible g (candTable g) n row col) [0 ..< 9] = Inr (filter ?P [0 ..< 9])"
    by (rule filterE_Inr) (use assms in \<open>simp add: isPossible_wf\<close>)
  show ?thesis
  proof (cases "length (filter ?P [0 ..< 9]) = 1")
    case True
    then have "filter ?P [0 ..< 9] ! 0 \<in> set [0 ..< 9]" by (rule nth_filter_in)
    then have "filter ?P [0 ..< 9] ! 0 < 9" by simp
    with True assms show ?thesis by (simp add: hiddenInCol_def f goodHint_def)
  next
    case False
    then show ?thesis by (simp add: hiddenInCol_def f)
  qed
qed

lemma boxRange_in_grid:
  "boxRow < 3 \<Longrightarrow> boxCol < 3 \<Longrightarrow> p \<in> set (boxRange (boxRow * 3) (boxCol * 3))
     \<Longrightarrow> fst p < 9 \<and> snd p < 9"
  by (cases p) (auto simp: set_boxRange)

lemma set_boxIndices: "set boxIndices = {(a, b). a < 3 \<and> b < 3}"
  by (auto simp: boxIndices_def)

lemma hiddenInBox_ok:
  assumes "wfGrid g" "b \<in> set boxIndices" "1 \<le> n" "n \<le> 9"
  shows "okRes (hiddenInBox g (candTable g) n b)"
proof -
  obtain boxRow boxCol where b: "b = (boxRow, boxCol)" "boxRow < 3" "boxCol < 3"
    using assms(2) by (auto simp: set_boxIndices)
  let ?P = "\<lambda>p. g ! fst p ! snd p = 0 \<and> n \<in> set (candidatesOf g (fst p) (snd p))"
  let ?cells = "boxRange (boxRow * 3) (boxCol * 3)"
  have f: "filterE (\<lambda>(r, c). isPossible g (candTable g) n r c) ?cells = Inr (filter ?P ?cells)"
  proof (rule filterE_Inr)
    fix p assume "p \<in> set ?cells"
    with b have "fst p < 9 \<and> snd p < 9" by (simp add: boxRange_in_grid)
    with assms(1) show "(case p of (r, c) \<Rightarrow> isPossible g (candTable g) n r c) = Inr (?P p)"
      by (cases p) (simp add: isPossible_wf)
  qed
  show ?thesis
  proof (cases "length (filter ?P ?cells) = 1")
    case True
    then have "filter ?P ?cells ! 0 \<in> set ?cells" by (rule nth_filter_in)
    with b have "fst (filter ?P ?cells ! 0) < 9 \<and> snd (filter ?P ?cells ! 0) < 9"
      by (simp add: boxRange_in_grid)
    moreover obtain row col where "filter ?P ?cells ! 0 = (row, col)"
      by (cases "filter ?P ?cells ! 0")
    ultimately show ?thesis
      using True assms by (simp add: hiddenInBox_def b f goodHint_def)
  next
    case False
    then show ?thesis by (simp add: hiddenInBox_def b f)
  qed
qed

lemma findHiddenSingle_ok:
  assumes "wfGrid g"
  shows "okRes (findHiddenSingle g (candTable g))"
  unfolding findHiddenSingle_def
proof (rule firstE_ok)
  fix n :: nat assume "n \<in> set [1 ..< 10]"
  then have n: "1 \<le> n" "n \<le> 9" by simp_all
  show "okRes (orElseE (firstE (hiddenInRow g (candTable g) n) [0 ..< 9])
      (orElseE (firstE (hiddenInCol g (candTable g) n) [0 ..< 9])
               (firstE (hiddenInBox g (candTable g) n) boxIndices)))"
    by (intro orElseE_ok firstE_ok hiddenInRow_ok hiddenInCol_ok hiddenInBox_ok assms n) simp_all
qed

lemma findNakedSingle_ok:
  assumes "wfGrid g"
  shows "okRes (findNakedSingle g (candTable g))"
proof (cases "find (isNakedSingle g (candTable g)) allPositions")
  case None
  then show ?thesis by (simp add: findNakedSingle_wf [OF assms])
next
  case (Some p)
  then have p: "p \<in> set allPositions" "isNakedSingle g (candTable g) p"
    by (simp_all add: find_allPositions_Some)
  then have rc: "fst p < 9" "snd p < 9" by (auto simp: set_allPositions)
  with p(2) have "length (candidatesOf g (fst p) (snd p)) = 1"
    by (simp add: isNakedSingle_def candTable_nth)
  then have "candidatesOf g (fst p) (snd p) ! 0 \<in> set (candidatesOf g (fst p) (snd p))"
    by (intro nth_mem) simp
  then have "1 \<le> candidatesOf g (fst p) (snd p) ! 0 \<and> candidatesOf g (fst p) (snd p) ! 0 \<le> 9"
    by (rule candidatesOf_range)
  with rc Some show ?thesis
    by (simp add: findNakedSingle_wf [OF assms] goodHint_def nakedSingleHint_def candTable_nth)
qed

lemma unit_in_grid:
  assumes "u \<in> set allUnits" "p \<in> set u"
  shows "fst p < 9 \<and> snd p < 9"
proof -
  from assms(1) consider r where "r < 9" "u = getRowCells r" | c where "c < 9" "u = getColCells c"
    | a b where "a < 3" "b < 3" "u = getBoxCells (a * 3) (b * 3)"
    by (auto simp: allUnits_def set_boxIndices)
  then show ?thesis
  proof cases
    case 1 with assms(2) show ?thesis by (auto simp: getRowCells_def)
  next
    case 2 with assms(2) show ?thesis by (auto simp: getColCells_def)
  next
    case 3
    with assms(2) have "p \<in> set (boxRange (a * 3) (b * 3))"
      by (simp add: getBoxCells_def getBoxStart_def)
    with 3 show ?thesis by (simp add: boxRange_in_grid)
  qed
qed

lemma isPairCell_wf:
  "wfGrid g \<Longrightarrow> fst p < 9 \<Longrightarrow> snd p < 9 \<Longrightarrow>
   isPairCell g (candTable g) p
     = Inr (cellOf g p = 0 \<and> length (candidatesOf g (fst p) (snd p)) = 2)"
  by (simp add: isPairCell_def cellIs_wf candAt_candTable cellOf_def)

lemma set_pairsOf: "(a, b) \<in> set (pairsOf xs) \<Longrightarrow> a \<in> set xs \<and> b \<in> set xs"
  by (induction xs) auto

lemma hasElimination_wf:
  assumes "wfGrid g" "\<And>p. p \<in> set u \<Longrightarrow> fst p < 9 \<and> snd p < 9"
  shows "\<exists>b. hasElimination g (candTable g) u p1 p2 vs = Inr b"
  unfolding hasElimination_def
proof (intro exI, rule anyE_Inr)
  fix q assume "q \<in> set u"
  then have "fst q < 9 \<and> snd q < 9" by (rule assms(2))
  with assms(1) show "(case q of (r, c) \<Rightarrow>
        if (r \<noteq> fst p1 \<or> c \<noteq> snd p1) \<and> (r \<noteq> fst p2 \<or> c \<noteq> snd p2)
        then bindE (cellIs g r c 0) (\<lambda>empty.
               if empty
               then bindE (candAt (candTable g) r c) (\<lambda>cs. Inr (\<exists>v\<in>set vs. v \<in> set cs))
               else Inr False)
        else Inr False)
     = Inr (case q of (r, c) \<Rightarrow> (r \<noteq> fst p1 \<or> c \<noteq> snd p1) \<and> (r \<noteq> fst p2 \<or> c \<noteq> snd p2)
              \<and> g ! r ! c = 0 \<and> (\<exists>v\<in>set vs. v \<in> set (candidatesOf g r c)))"
    by (cases q) (simp add: cellIs_wf candAt_candTable)
qed

lemma nakedPairAt_ok:
  assumes "wfGrid g" "\<And>p. p \<in> set u \<Longrightarrow> fst p < 9 \<and> snd p < 9"
    and p1: "fst p1 < 9" "snd p1 < 9" "length (candidatesOf g (fst p1) (snd p1)) = 2"
    and p2: "fst p2 < 9" "snd p2 < 9"
  shows "okRes (nakedPairAt g (candTable g) u (p1, p2))"
proof -
  let ?cs1 = "candidatesOf g (fst p1) (snd p1)"
  obtain b where b: "hasElimination g (candTable g) u p1 p2 ?cs1 = Inr b"
    using hasElimination_wf [OF assms(1,2)] by blast
  from p1(3) have "?cs1 ! 0 \<in> set ?cs1" by (intro nth_mem) simp
  then have "1 \<le> ?cs1 ! 0 \<and> ?cs1 ! 0 \<le> 9" by (rule candidatesOf_range)
  with p1 p2 b show ?thesis
    by (simp add: nakedPairAt_def candAt_candTable Let_def goodHint_def)
qed

lemma findNakedPair_ok:
  assumes "wfGrid g"
  shows "okRes (findNakedPair g (candTable g))"
  unfolding findNakedPair_def
proof (rule firstE_ok)
  fix u assume u: "u \<in> set allUnits"
  have inr: "fst p < 9 \<and> snd p < 9" if "p \<in> set u" for p
    using u that by (rule unit_in_grid)
  let ?P = "\<lambda>p. cellOf g p = 0 \<and> length (candidatesOf g (fst p) (snd p)) = 2"
  have f: "filterE (isPairCell g (candTable g)) u = Inr (filter ?P u)"
  proof (rule filterE_Inr)
    fix p assume "p \<in> set u"
    then have "fst p < 9" "snd p < 9" using inr by blast+
    with assms show "isPairCell g (candTable g) p = Inr (?P p)" by (rule isPairCell_wf)
  qed
  have "okRes (firstE (nakedPairAt g (candTable g) u) (pairsOf (filter ?P u)))"
  proof (rule firstE_ok)
    fix pq assume pq: "pq \<in> set (pairsOf (filter ?P u))"
    obtain p1 p2 where pq2: "pq = (p1, p2)" by (cases pq)
    from pq have mem: "p1 \<in> set (filter ?P u) \<and> p2 \<in> set (filter ?P u)"
      unfolding pq2 by (rule set_pairsOf)
    then have "p1 \<in> set u" "p2 \<in> set u" by simp_all
    then have r1: "fst p1 < 9" "snd p1 < 9" and r2: "fst p2 < 9" "snd p2 < 9"
      using inr by blast+
    from mem have l: "length (candidatesOf g (fst p1) (snd p1)) = 2" by simp
    show "okRes (nakedPairAt g (candTable g) u pq)"
      unfolding pq2 using assms inr r1 l r2 by (rule nakedPairAt_ok)
  qed
  then show "okRes (bindE (filterE (isPairCell g (candTable g)) u)
       (\<lambda>pairCells. firstE (nakedPairAt g (candTable g) u) (pairsOf pairCells)))"
    by (simp only: f bindE_Inr)
qed

lemma findNextHint_ok:
  assumes "wfGrid g"
  shows "okRes (findNextHint g allowed)"
  unfolding findNextHint_def initializeCandidates_wf [OF assms] bindE_Inr
  by (intro orElseE_ok)
     (simp_all add: findNakedSingle_ok findHiddenSingle_ok findNakedPair_ok assms)

lemma setCell_wf:
  assumes "wfGrid g" "r < 9" "c < 9" "v \<le> 9"
  shows "setCell g r c v = Inr (g[r := (g ! r)[c := v]]) \<and> wfGrid (g[r := (g ! r)[c := v]])"
proof -
  have "wfGrid (g[r := (g ! r)[c := v]])"
    using assms unfolding wfGrid_def list_all_length
    by (auto simp: nth_list_update)
  with assms show ?thesis by (simp add: setCell_def wfGrid_length wfGrid_row)
qed

lemma hasEmptyCell_wf:
  assumes "wfGrid g"
  shows "hasEmptyCell g = Inr (\<exists>p\<in>set allPositions. cellOf g p = 0)"
  unfolding hasEmptyCell_def
  by (rule anyE_Inr [where q = "\<lambda>p. cellOf g p = 0"])
     (use assms in \<open>auto simp: set_allPositions cellIs_wf cellOf_def\<close>)

lemma solveLoop_total:
  "wfGrid g \<Longrightarrow> \<exists>res. solveLoop g allowed used i = Inr res"
proof (induction g allowed used i rule: solveLoop.induct)
  case (1 grid allowed used i)
  show ?case
  proof (cases "i < 1000")
    case False
    then show ?thesis by (simp add: solveLoop.simps [of grid allowed used i])
  next
    case lt: True
    note he = hasEmptyCell_wf [OF "1.prems"]
    show ?thesis
    proof (cases "\<exists>p\<in>set allPositions. cellOf grid p = 0")
      case False
      with lt he show ?thesis by (simp add: solveLoop.simps [of grid allowed used i])
    next
      case True
      from findNextHint_ok [OF "1.prems", of allowed]
      obtain x where x: "findNextHint grid allowed = Inr x" "\<forall>h. x = Some h \<longrightarrow> goodHint h"
        by (auto simp: okRes_def)
      show ?thesis
      proof (cases x)
        case None
        with lt he True x show ?thesis by (simp add: solveLoop.simps [of grid allowed used i])
      next
        case (Some h)
        with x have gh: "goodHint h" by simp
        let ?g' = "grid[fst (targetCell h) := (grid ! fst (targetCell h))[snd (targetCell h) := targetValue h]]"
        from gh "1.prems" have sc: "setCell grid (fst (targetCell h)) (snd (targetCell h)) (targetValue h) = Inr ?g'"
          and wf': "wfGrid ?g'"
          by (simp_all add: goodHint_def setCell_wf)
        from he True have he': "hasEmptyCell grid = Inr True" by simp
        from "1.IH" [OF lt he' refl _ _ sc wf'] x Some
        have "\<exists>res. solveLoop ?g' allowed (used @ [technique h]) (i + 1) = Inr res" by simp
        with lt he' x Some sc show ?thesis
          by (simp add: solveLoop.simps [of grid allowed used i])
      qed
    qed
  qed
qed

section \<open>Facts about the generator\<close>

lemma mulberry32_range: "0 \<le> fst (mulberry32 seed) \<and> fst (mulberry32 seed) < 1"
proof (cases seed)
  case None
  then show ?thesis by (simp add: mulberry32_def)
next
  case (Some s)
  have "real_of_int (uint w) / 4294967296 < 1" for w :: "32 word"
  proof -
    have "uint w < 4294967296" using uint_lt2p [of w] by simp
    then have "real_of_int (uint w) < real_of_int 4294967296" by (simp only: of_int_less_iff)
    then have "real_of_int (uint w) < 4294967296" by (simp only: of_int_numeral)
    then show ?thesis by (simp only: divide_less_eq_1_pos zero_less_numeral)
  qed
  moreover have "0 \<le> real_of_int (uint w) / 4294967296" for w :: "32 word"
  proof -
    have "0 \<le> real_of_int (uint w)" by (simp only: of_int_0_le_iff uint_ge_0)
    then show ?thesis by (rule divide_nonneg_pos) simp
  qed
  ultimately show ?thesis using Some by (simp add: mulberry32_def Let_def)
qed

lemma callRandom_range:
  assumes "rndRange mr"
  shows "0 \<le> fst (callRandom mr w) \<and> fst (callRandom mr w) < 1"
proof (cases "randomFn w")
  case MathRandom
  obtain x m' where r: "mr (mathState w) = (x, m')" by (cases "mr (mathState w)")
  with assms have "0 \<le> x \<and> x < 1" unfolding rndRange_def by (metis fst_conv)
  with MathRandom r show ?thesis by (simp add: callRandom_def)
next
  case (SeededRandom seed)
  obtain x s' where r: "mulberry32 seed = (x, s')" by (cases "mulberry32 seed")
  with mulberry32_range [of seed] have "0 \<le> x \<and> x < 1" by simp
  with SeededRandom r show ?thesis by (simp add: callRandom_def)
qed

lemma floor_index:
  assumes "0 \<le> x" "x < 1"
  shows "0 \<le> \<lfloor>x * real (Suc i)\<rfloor> \<and> nat \<lfloor>x * real (Suc i)\<rfloor> \<le> i"
proof -
  have "x * real (Suc i) < real (Suc i)" using assms by simp
  then have "\<lfloor>x * real (Suc i)\<rfloor> < int (Suc i)" by (simp add: floor_less_iff)
  moreover have "0 \<le> x * real (Suc i)" using assms by simp
  then have "0 \<le> \<lfloor>x * real (Suc i)\<rfloor>" by simp
  ultimately show ?thesis by simp
qed

lemma shuffleFrom_perm:
  assumes "rndRange mr"
  shows "i < length xs \<Longrightarrow> \<exists>ys w'. shuffleFrom mr i xs w = Inr (ys, w') \<and> set ys = set xs"
proof (induction i arbitrary: xs w)
  case 0
  then show ?case by simp
next
  case (Suc i)
  obtain x w1 where cr: "callRandom mr w = (x, w1)" by (cases "callRandom mr w")
  with callRandom_range [OF assms, of w] have x: "0 \<le> x" "x < 1" by simp_all
  define j where "j = nat \<lfloor>x * real (Suc (Suc i))\<rfloor>"
  from floor_index [OF x, of "Suc i"] have j: "0 \<le> \<lfloor>x * real (Suc (Suc i))\<rfloor>" "j \<le> Suc i"
    by (simp_all add: j_def)
  with Suc.prems have jl: "j < length xs" by simp
  let ?xs' = "xs[Suc i := xs ! j, j := xs ! Suc i]"
  have m: "set ?xs' = set xs" using Suc.prems jl by (rule set_swap)
  have "i < length ?xs'" using Suc.prems by simp
  from Suc.IH [OF this, of w1] obtain ys w' where
    "shuffleFrom mr i ?xs' w1 = Inr (ys, w')" "set ys = set ?xs'" by blast
  with m cr j jl show ?case by (simp add: j_def Let_def)
qed

lemma shuffleArray_perm:
  assumes "rndRange mr"
  shows "\<exists>ys w'. shuffleArray mr xs w = Inr (ys, w') \<and> set ys = set xs"
proof (cases xs)
  case Nil
  then show ?thesis by (simp add: shuffleArray_def)
next
  case (Cons a as)
  then have "length xs - 1 < length xs" by simp
  from shuffleFrom_perm [OF assms this] show ?thesis by (simp add: shuffleArray_def)
qed

lemma firstEmpty_wf:
  assumes "wfGrid g"
  shows "firstEmpty g = Inr (find (\<lambda>p. cellOf g p = 0) allPositions)"
proof -
  have "firstEmpty g = Inr (map_option (\<lambda>p. p) (find (\<lambda>p. cellOf g p = 0) allPositions))"
    unfolding firstEmpty_def
    by (rule firstE_find) (use assms in \<open>auto simp: set_allPositions cellIs_wf cellOf_def\<close>)
  then show ?thesis by (simp add: option.map_ident)
qed

lemma cellOf_putCell:
  assumes "wfGrid g" "p \<in> set allPositions" "q \<in> set allPositions"
  shows "cellOf (putCell g p v) q = (if q = p then v else cellOf g q)"
proof -
  obtain r c where p: "p = (r, c)" "r < 9" "c < 9" using assms(2) by (auto simp: set_allPositions)
  obtain r' c' where q: "q = (r', c')" "r' < 9" "c' < 9" using assms(3) by (auto simp: set_allPositions)
  show ?thesis
    using assms(1) p q
    by (auto simp: cellOf_def putCell_def nth_list_update wfGrid_length wfGrid_row)
qed

lemma putCell_wf:
  assumes "wfGrid g" "p \<in> set allPositions" "v \<le> 9"
  shows "setCell g (fst p) (snd p) v = Inr (putCell g p v)" "wfGrid (putCell g p v)"
proof -
  from assms(2) have "fst p < 9" "snd p < 9" by (auto simp: set_allPositions)
  from setCell_wf [OF assms(1) this assms(3)]
  show "setCell g (fst p) (snd p) v = Inr (putCell g p v)" "wfGrid (putCell g p v)"
    by (simp_all add: putCell_def)
qed

lemma putCell_restore:
  assumes "wfGrid g" "p \<in> set allPositions"
  shows "putCell (putCell g p v) p (cellOf g p) = g"
proof -
  from assms(2) have "fst p < 9" "snd p < 9" by (auto simp: set_allPositions)
  with assms(1) have "fst p < length g" by (simp add: wfGrid_length)
  then show ?thesis by (simp add: putCell_def cellOf_def)
qed

lemma finite_emptyCells [simp]: "finite (emptyCells g)"
  by (simp add: emptyCells_def)

lemma numEmpty_putCell:
  assumes "wfGrid g" "p \<in> set allPositions" "cellOf g p = 0" "v \<noteq> 0"
  shows "numEmpty (putCell g p v) < numEmpty g"
proof -
  have "emptyCells (putCell g p v) \<subset> emptyCells g"
  proof
    show "emptyCells (putCell g p v) \<subseteq> emptyCells g"
      using assms by (auto simp: emptyCells_def cellOf_putCell split: if_splits)
    have "p \<in> emptyCells g" using assms by (simp add: emptyCells_def)
    moreover have "p \<notin> emptyCells (putCell g p v)"
      using assms by (simp add: emptyCells_def cellOf_putCell)
    ultimately show "emptyCells (putCell g p v) \<noteq> emptyCells g" by blast
  qed
  then show ?thesis unfolding numEmpty_def by (intro psubset_card_mono) simp_all
qed

lemma sameUnit_sym: "sameUnit p q = sameUnit q p"
  by (auto simp: sameUnit_def)

lemma freeFor_alt:
  "freeFor g r c n \<longleftrightarrow> (\<forall>q\<in>set allPositions. q \<noteq> (r, c) \<and> sameUnit (r, c) q \<longrightarrow> cellOf g q \<noteq> n)"
  by (simp add: freeFor_def)

lemma noConflicts_putCell:
  assumes wf: "wfGrid g" and nc: "noConflicts g" and p: "p \<in> set allPositions"
    and free: "freeFor g (fst p) (snd p) v"
  shows "noConflicts (putCell g p v)"
  unfolding noConflicts_iff
proof (intro ballI notI)
  fix q1 q2 assume q: "q1 \<in> set allPositions" "q2 \<in> set allPositions"
    and c: "conflict (putCell g p v) q1 q2"
  from c have ne: "q1 \<noteq> q2" and su: "sameUnit q1 q2"
    and nz: "cellOf (putCell g p v) q1 \<noteq> 0"
    and eq: "cellOf (putCell g p v) q1 = cellOf (putCell g p v) q2"
    by (simp_all add: conflict_def)
  have fr: "cellOf g q \<noteq> v" if "q \<in> set allPositions" "q \<noteq> p" "sameUnit p q" for q
    using free that unfolding freeFor_alt by (cases p) auto
  show False
  proof (cases "q1 = p")
    case True
    with ne have "q2 \<noteq> p" by simp
    with eq True wf p q have "cellOf g q2 = v" by (simp add: cellOf_putCell)
    moreover have "cellOf g q2 \<noteq> v" using q(2) \<open>q2 \<noteq> p\<close> su True by (intro fr) simp_all
    ultimately show False by simp
  next
    case False
    show False
    proof (cases "q2 = p")
      case True
      with eq False wf p q have "cellOf g q1 = v" by (simp add: cellOf_putCell)
      moreover have "cellOf g q1 \<noteq> v"
        using q(1) False su True by (intro fr) (simp_all add: sameUnit_sym)
      ultimately show False by simp
    next
      case q2: False
      with False eq nz wf p q have "conflict g q1 q2"
        using ne su by (simp add: conflict_def cellOf_putCell)
      with nc q show False by (simp add: noConflicts_iff)
    qed
  qed
qed

lemma isComplete_iff: "isComplete g \<longleftrightarrow> (\<forall>p\<in>set allPositions. cellOf g p \<noteq> 0)"
  by (simp add: isComplete_def list_all_iff)

lemma solution_value_free:
  assumes s: "solutionGrid s" and e: "extendsGrid s g" and p: "p \<in> set allPositions"
  shows "freeFor g (fst p) (snd p) (cellOf s p)"
  unfolding freeFor_alt
proof (intro ballI impI notI)
  fix q assume q: "q \<in> set allPositions" "q \<noteq> (fst p, snd p) \<and> sameUnit (fst p, snd p) q"
    and eq: "cellOf g q = cellOf s p"
  from s p have nz: "cellOf s p \<noteq> 0" by (simp add: solutionGrid_def isComplete_iff)
  with eq e q(1) have "cellOf s q = cellOf s p" by (simp add: extendsGrid_def)
  with nz q(2) have "conflict s p q" by (auto simp: conflict_def)
  with s p q(1) show False by (simp add: solutionGrid_def noConflicts_iff)
qed

lemma solution_value_range:
  assumes "solutionGrid s" "p \<in> set allPositions"
  shows "1 \<le> cellOf s p \<and> cellOf s p \<le> 9"
proof -
  from assms have "cellOf s p \<noteq> 0" by (simp add: solutionGrid_def isComplete_iff)
  moreover from assms have "cellOf s p \<le> 9"
    by (auto simp: solutionGrid_def cellOf_def set_allPositions intro: wfGrid_cell)
  ultimately show ?thesis by simp
qed

lemma extendsGrid_putCell:
  assumes "wfGrid g" "p \<in> set allPositions" "extendsGrid s g" "cellOf s p = v"
  shows "extendsGrid s (putCell g p v)"
  using assms by (simp add: extendsGrid_def cellOf_putCell)

lemma extendsGrid_putCell_D:
  assumes "wfGrid g" "p \<in> set allPositions" "cellOf g p = 0" "extendsGrid s (putCell g p v)"
  shows "extendsGrid s g"
  unfolding extendsGrid_def
proof (intro ballI impI)
  fix q assume q: "q \<in> set allPositions" "cellOf g q \<noteq> 0"
  with assms(3) have "q \<noteq> p" by auto
  with assms q show "cellOf s q = cellOf g q"
    by (auto simp: extendsGrid_def cellOf_putCell)
qed

lemma extendsGrid_refl: "extendsGrid g g"
  by (simp add: extendsGrid_def)

lemma extendsGrid_trans_put:
  assumes "wfGrid g" "p \<in> set allPositions" "cellOf g p = 0" "extendsGrid s (putCell g p v)"
  shows "extendsGrid s g"
  using assms by (rule extendsGrid_putCell_D)

lemma completions_split:
  assumes "wfGrid g" "p \<in> set allPositions" "cellOf g p = 0"
    and "\<And>v. 1 \<le> v \<Longrightarrow> v \<le> 9 \<Longrightarrow> completions (putCell g p v) = {}"
  shows "completions g = {}"
proof (rule ccontr)
  assume "completions g \<noteq> {}"
  then obtain s where s: "solutionGrid s" "extendsGrid s g" by (auto simp: completions_def)
  from solution_value_range [OF s(1) assms(2)]
  have "completions (putCell g p (cellOf s p)) = {}" by (intro assms(4)) simp_all
  moreover have "s \<in> completions (putCell g p (cellOf s p))"
    using s assms by (simp add: completions_def extendsGrid_putCell)
  ultimately show False by simp
qed

lemma not_free_no_completion:
  assumes "wfGrid g" "p \<in> set allPositions" "cellOf g p = 0" "v \<noteq> 0"
    "\<not> freeFor g (fst p) (snd p) v"
  shows "completions (putCell g p v) = {}"
proof (rule ccontr)
  assume "completions (putCell g p v) \<noteq> {}"
  then obtain s where s: "solutionGrid s" "extendsGrid s (putCell g p v)"
    by (auto simp: completions_def)
  from s(2) assms have "cellOf s p = v" by (simp add: extendsGrid_def cellOf_putCell)
  moreover have "extendsGrid s g" using assms(1-3) s(2) by (rule extendsGrid_putCell_D)
  ultimately have "freeFor g (fst p) (snd p) v"
    using solution_value_free [OF s(1) _ assms(2), of g] by simp
  with assms(5) show False by simp
qed

lemma isValidPlacement_free:
  assumes "wfGrid g" "p \<in> set allPositions" "v \<noteq> 0"
  shows "isValidPlacement g (fst p) (snd p) v = Inr (freeFor g (fst p) (snd p) v)"
proof -
  from assms(2) have "fst p < 9" "snd p < 9" by (auto simp: set_allPositions)
  with assms(1,3) show ?thesis by (simp add: isValidPlacement_wf)
qed

lemma tryNumbers_spec:
  assumes IH: "\<And>g' w. wfGrid g' \<Longrightarrow> noConflicts g' \<Longrightarrow> numEmpty g' < n
                  \<Longrightarrow> fillSpec g' (fillGrid mr n g' w)"
    and wf: "wfGrid g" and nc: "noConflicts g"
    and p: "p \<in> set allPositions" and z: "cellOf g p = 0"
    and ne: "numEmpty g \<le> n"
  shows "\<forall>v\<in>set nums. 1 \<le> v \<and> v \<le> 9
     \<Longrightarrow> trySpec g p nums (tryNumbers mr n g (fst p) (snd p) nums w)"
proof (induction nums arbitrary: w)
  case Nil
  have "tryNumbers mr n g (fst p) (snd p) [] w = Some (Inr (False, g, w))" by simp
  then show ?case unfolding trySpec_def by (intro exI [of _ False] exI [of _ g] exI [of _ w]) simp
next
  case (Cons v nums)
  then have v: "v \<noteq> 0" "v \<le> 9" and rest: "\<forall>v\<in>set nums. 1 \<le> v \<and> v \<le> 9" by auto
  note valid = isValidPlacement_free [OF wf p v(1)]
  show ?case
  proof (cases "freeFor g (fst p) (snd p) v")
    case False
    then have none: "completions (putCell g p v) = {}"
      using wf p z v(1) by (intro not_free_no_completion) simp_all
    from False valid have step: "tryNumbers mr n g (fst p) (snd p) (v # nums) w
        = tryNumbers mr n g (fst p) (snd p) nums w" by simp
    from Cons.IH [OF rest, of w] none show ?thesis
      unfolding step trySpec_def by auto
  next
    case True
    let ?g1 = "putCell g p v"
    note put = putCell_wf [OF wf p v(2)]
    have nc1: "noConflicts ?g1" using wf nc p True by (rule noConflicts_putCell)
    have "numEmpty ?g1 < numEmpty g" using wf p z v(1) by (rule numEmpty_putCell)
    with ne have "numEmpty ?g1 < n" by simp
    from IH [OF put(2) nc1 this, of w]
    obtain b g2 w2 where f: "fillGrid mr n ?g1 w = Some (Inr (b, g2, w2))"
      and bt: "b \<longrightarrow> solutionGrid g2 \<and> extendsGrid g2 ?g1"
      and bf: "\<not> b \<longrightarrow> g2 = ?g1 \<and> completions ?g1 = {}"
      unfolding fillSpec_def by blast
    show ?thesis
    proof (cases b)
      case True
      with bt have s2: "solutionGrid g2" "extendsGrid g2 ?g1" by simp_all
      from s2(2) have e2: "extendsGrid g2 g" by (rule extendsGrid_putCell_D [OF wf p z])
      have eq: "tryNumbers mr n g (fst p) (snd p) (v # nums) w = Some (Inr (True, g2, w2))"
        using valid \<open>freeFor g (fst p) (snd p) v\<close> put(1) f True by simp
      show ?thesis unfolding eq trySpec_def
        by (intro exI [of _ True] exI [of _ g2] exI [of _ w2]) (simp add: s2 e2)
    next
      case False
      with bf have g2: "g2 = ?g1" and none: "completions ?g1 = {}" by simp_all
      have "putCell ?g1 p (cellOf g p) = g" using wf p by (rule putCell_restore)
      with z have rest0: "putCell ?g1 p 0 = g" by simp
      have "setCell ?g1 (fst p) (snd p) 0 = Inr (putCell ?g1 p 0)"
        by (rule putCell_wf(1) [OF put(2) p]) simp
      with rest0 have sc: "setCell ?g1 (fst p) (snd p) 0 = Inr g" by simp
      have step: "tryNumbers mr n g (fst p) (snd p) (v # nums) w
          = tryNumbers mr n g (fst p) (snd p) nums w2"
        using valid \<open>freeFor g (fst p) (snd p) v\<close> put(1) f False g2 sc by simp
      from Cons.IH [OF rest, of w2] none show ?thesis
        unfolding step trySpec_def by auto
    qed
  qed
qed

lemma find_empty_None:
  assumes "find (\<lambda>p. cellOf g p = 0) allPositions = None"
  shows "isComplete g"
  using assms by (auto simp: find_None_iff isComplete_iff)

lemma find_empty_Some:
  assumes "find (\<lambda>p. cellOf g p = 0) allPositions = Some p"
  shows "p \<in> set allPositions \<and> cellOf g p = 0"
  using find_allPositions_Some [OF assms] by simp

lemma fillGrid_spec:
  assumes rr: "rndRange mr"
  shows "wfGrid g \<Longrightarrow> noConflicts g \<Longrightarrow> numEmpty g < n \<Longrightarrow> fillSpec g (fillGrid mr n g w)"
proof (induction n arbitrary: g w)
  case 0
  then show ?case by simp
next
  case (Suc n)
  note fe = firstEmpty_wf [OF Suc.prems(1)]
  show ?case
  proof (cases "find (\<lambda>p. cellOf g p = 0) allPositions")
    case None
    then have "isComplete g" by (rule find_empty_None)
    with Suc.prems have sg: "solutionGrid g" by (simp add: solutionGrid_def)
    have eq: "fillGrid mr (Suc n) g w = Some (Inr (True, g, w))"
      using fe None by simp
    show ?thesis unfolding eq fillSpec_def
      by (intro exI [of _ True] exI [of _ g] exI [of _ w]) (simp add: sg extendsGrid_refl)
  next
    case (Some p)
    then have p: "p \<in> set allPositions" and z: "cellOf g p = 0"
      using find_empty_Some by blast+
    from shuffleArray_perm [OF rr, of "[1 ..< 10]" w]
    obtain nums w1 where sh: "shuffleArray mr [1 ..< 10] w = Inr (nums, w1)"
      and ms: "set nums = set [1 ..< 10]" by blast
    then have sn: "set nums = {1 ..< 10}" by simp
    then have range: "\<forall>v\<in>set nums. 1 \<le> v \<and> v \<le> 9" by auto
    from Suc.prems(3) have ne: "numEmpty g \<le> n" by simp
    have "trySpec g p nums (tryNumbers mr n g (fst p) (snd p) nums w1)"
      using Suc.IH Suc.prems(1,2) p z ne range by (rule tryNumbers_spec)
    then obtain b g' w' where t: "tryNumbers mr n g (fst p) (snd p) nums w1 = Some (Inr (b, g', w'))"
      and bt: "b \<longrightarrow> solutionGrid g' \<and> extendsGrid g' g"
      and bf: "\<not> b \<longrightarrow> g' = g \<and> (\<forall>v\<in>set nums. completions (putCell g p v) = {})"
      unfolding trySpec_def by blast
    have eq: "fillGrid mr (Suc n) g w = Some (Inr (b, g', w'))"
      using fe Some sh t by (cases p) simp
    have "completions g = {}" if "\<not> b"
    proof (rule completions_split [OF Suc.prems(1) p z])
      fix v :: nat assume "1 \<le> v" "v \<le> 9"
      then have "v \<in> set nums" unfolding sn by simp
      with bf that show "completions (putCell g p v) = {}" by simp
    qed
    with bt bf show ?thesis unfolding eq fillSpec_def by blast
  qed
qed

lemma numEmpty_le: "numEmpty g \<le> 81"
proof -
  have "card (emptyCells g) \<le> card (set allPositions)"
    by (rule card_mono) (auto simp: emptyCells_def)
  also have "\<dots> \<le> length allPositions" by (rule card_length)
  finally show ?thesis by (simp add: numEmpty_def length_allPositions)
qed

lemma createEmptyGrid_wf: "wfGrid createEmptyGrid"
  by (simp add: wfGrid_def createEmptyGrid_def list_all_length)

lemma cellOf_createEmptyGrid: "p \<in> set allPositions \<Longrightarrow> cellOf createEmptyGrid p = 0"
  by (auto simp: cellOf_def createEmptyGrid_def set_allPositions)

lemma createEmptyGrid_noConflicts: "noConflicts createEmptyGrid"
  by (simp add: noConflicts_iff conflict_def cellOf_createEmptyGrid)

lemma exampleSolution_solution: "solutionGrid exampleSolution"
proof -
  have "wfGrid exampleSolution" "isComplete exampleSolution" "noConflicts exampleSolution"
    by code_simp+
  then show ?thesis by (simp add: solutionGrid_def)
qed

lemma completions_empty_grid: "completions createEmptyGrid \<noteq> {}"
proof -
  have "extendsGrid exampleSolution createEmptyGrid"
    by (simp add: extendsGrid_def cellOf_createEmptyGrid)
  with exampleSolution_solution show ?thesis by (auto simp: completions_def)
qed

lemma finite_wfGrid: "finite {g. wfGrid g}"
proof -
  let ?R = "{row :: nat list. set row \<subseteq> {..9} \<and> length row = 9}"
  have fr: "finite ?R" by (rule finite_lists_length_eq) simp
  have "{g. wfGrid g} \<subseteq> {g. set g \<subseteq> ?R \<and> length g = 9}"
    by (auto simp: wfGrid_def list_all_iff)
  moreover have "finite {g. set g \<subseteq> ?R \<and> length g = 9}"
    using fr by (rule finite_lists_length_eq)
  ultimately show ?thesis by (rule finite_subset)
qed

lemma finite_completions [simp]: "finite (completions g)"
  by (rule finite_subset [OF _ finite_wfGrid]) (auto simp: completions_def solutionGrid_def)

lemma grid_ext:
  assumes "wfGrid s" "wfGrid g" "\<forall>p\<in>set allPositions. cellOf s p = cellOf g p"
  shows "s = g"
proof (rule nth_equalityI)
  show "length s = length g" using assms by (simp add: wfGrid_length)
next
  fix r assume "r < length s"
  then have r: "r < 9" using assms(1) by (simp add: wfGrid_length)
  show "s ! r = g ! r"
  proof (rule nth_equalityI)
    show "length (s ! r) = length (g ! r)" using assms r by (simp add: wfGrid_row)
  next
    fix c assume "c < length (s ! r)"
    then have "c < 9" using assms(1) r by (simp add: wfGrid_row)
    with r have "(r, c) \<in> set allPositions" by (simp add: set_allPositions)
    with assms(3) have "cellOf s (r, c) = cellOf g (r, c)" by blast
    then show "s ! r ! c = g ! r ! c" by (simp add: cellOf_def)
  qed
qed

lemma completions_complete:
  assumes "solutionGrid g"
  shows "completions g = {g}"
proof (rule set_eqI, rule iffI)
  fix s assume "s \<in> completions g"
  then have s: "solutionGrid s" "extendsGrid s g" by (simp_all add: completions_def)
  have "\<forall>p\<in>set allPositions. cellOf s p = cellOf g p"
    using s(2) assms by (simp add: extendsGrid_def solutionGrid_def isComplete_iff)
  with s(1) assms have "s = g" by (intro grid_ext) (simp_all add: solutionGrid_def)
  then show "s \<in> {g}" by simp
next
  fix s assume "s \<in> {g}"
  with assms show "s \<in> completions g" by (simp add: completions_def extendsGrid_refl)
qed

lemma completions_value:
  assumes "wfGrid g" "p \<in> set allPositions" "v \<noteq> 0" "s \<in> completions (putCell g p v)"
  shows "cellOf s p = v"
  using assms by (simp add: completions_def extendsGrid_def cellOf_putCell)

lemma completions_union:
  assumes "wfGrid g" "p \<in> set allPositions" "cellOf g p = 0"
  shows "completions g = (\<Union>v\<in>{1 ..< 10}. completions (putCell g p v))"
proof (rule set_eqI, rule iffI)
  fix s assume "s \<in> completions g"
  then have s: "solutionGrid s" "extendsGrid s g" by (simp_all add: completions_def)
  from solution_value_range [OF s(1) assms(2)] have "cellOf s p \<in> {1 ..< 10}" by simp
  moreover have "s \<in> completions (putCell g p (cellOf s p))"
    using s assms by (simp add: completions_def extendsGrid_putCell)
  ultimately show "s \<in> (\<Union>v\<in>{1 ..< 10}. completions (putCell g p v))" by blast
next
  fix s assume "s \<in> (\<Union>v\<in>{1 ..< 10}. completions (putCell g p v))"
  then obtain v where "solutionGrid s" "extendsGrid s (putCell g p v)"
    by (auto simp: completions_def)
  moreover from this(2) have "extendsGrid s g" by (rule extendsGrid_putCell_D [OF assms])
  ultimately show "s \<in> completions g" by (simp add: completions_def)
qed

lemma countNums_spec:
  assumes IH: "\<And>g' c. wfGrid g' \<Longrightarrow> noConflicts g' \<Longrightarrow> numEmpty g' < n \<Longrightarrow> c \<le> 2
                 \<Longrightarrow> countSolutions n g' c = Some (Inr (g', min 2 (c + card (completions g'))))"
    and wf: "wfGrid g" and nc: "noConflicts g"
    and p: "p \<in> set allPositions" and z: "cellOf g p = 0"
    and ne: "numEmpty g \<le> n"
  shows "\<forall>v\<in>set nums. 1 \<le> v \<and> v \<le> 9 \<Longrightarrow> distinct nums \<Longrightarrow> count \<le> 1
     \<Longrightarrow> countNums n g count (fst p) (snd p) nums
          = Some (Inr (g, min 2 (count + card (\<Union>v\<in>set nums. completions (putCell g p v)))))"
proof (induction nums arbitrary: count)
  case Nil
  then show ?case by simp
next
  case (Cons v nums)
  then have v: "v \<noteq> 0" "v \<le> 9" and rest: "\<forall>v\<in>set nums. 1 \<le> v \<and> v \<le> 9"
    and dist: "distinct nums" and vn: "v \<notin> set nums" by auto
  let ?C = "completions (putCell g p v)"
  let ?U = "\<Union>v\<in>set nums. completions (putCell g p v)"
  have un: "(\<Union>v\<in>set (v # nums). completions (putCell g p v)) = ?C \<union> ?U" by simp
  have finU: "finite ?U" by simp
  note valid = isValidPlacement_free [OF wf p v(1)]
  show ?case
  proof (cases "freeFor g (fst p) (snd p) v")
    case False
    then have none: "?C = {}"
      using wf p z v(1) by (intro not_free_no_completion) simp_all
    from False valid have step: "countNums n g count (fst p) (snd p) (v # nums)
        = countNums n g count (fst p) (snd p) nums" by simp
    show ?thesis unfolding step un none
      using Cons.IH [OF rest dist Cons.prems(3)] by simp
  next
    case True
    let ?g1 = "putCell g p v"
    note put = putCell_wf [OF wf p v(2)]
    have nc1: "noConflicts ?g1" using wf nc p True by (rule noConflicts_putCell)
    have "numEmpty ?g1 < numEmpty g" using wf p z v(1) by (rule numEmpty_putCell)
    with ne have ne1: "numEmpty ?g1 < n" by simp
    define c2 where "c2 = min 2 (count + card ?C)"
    have cs: "countSolutions n ?g1 count = Some (Inr (?g1, c2))"
      unfolding c2_def using put(2) nc1 ne1 Cons.prems(3) by (intro IH) simp_all
    have "putCell ?g1 p (cellOf g p) = g" using wf p by (rule putCell_restore)
    with z have rest0: "putCell ?g1 p 0 = g" by simp
    have "setCell ?g1 (fst p) (snd p) 0 = Inr (putCell ?g1 p 0)"
      by (rule putCell_wf(1) [OF put(2) p]) simp
    with rest0 have sc: "setCell ?g1 (fst p) (snd p) 0 = Inr g" by simp
    have disj: "?C \<inter> ?U = {}"
    proof (rule ccontr)
      assume "?C \<inter> ?U \<noteq> {}"
      then obtain s v' where s: "s \<in> ?C" "v' \<in> set nums" "s \<in> completions (putCell g p v')"
        by blast
      from rest s(2) have "v' \<noteq> 0" by auto
      with s(3) have "cellOf s p = v'" using wf p by (intro completions_value)
      moreover from s(1) have "cellOf s p = v" using wf p v(1) by (intro completions_value)
      ultimately show False using vn s(2) by simp
    qed
    have cardU: "card (?C \<union> ?U) = card ?C + card ?U"
      using disj by (intro card_Un_disjoint) simp_all
    show ?thesis
    proof (cases "c2 > 1")
      case gt: True
      have eq: "countNums n g count (fst p) (snd p) (v # nums) = Some (Inr (g, c2))"
        using valid True put(1) cs sc gt by simp
      from gt have "c2 = 2" "2 \<le> count + card ?C" by (simp_all add: c2_def)
      then have "min 2 (count + card (?C \<union> ?U)) = c2" unfolding cardU by simp
      then show ?thesis unfolding eq un by simp
    next
      case le: False
      then have c2: "c2 = count + card ?C" "c2 \<le> 1" by (simp_all add: c2_def)
      have step: "countNums n g count (fst p) (snd p) (v # nums)
          = countNums n g c2 (fst p) (snd p) nums"
        using valid True put(1) cs sc le by simp
      show ?thesis unfolding step un cardU
        using Cons.IH [OF rest dist c2(2)] by (simp add: c2(1) add.assoc)
    qed
  qed
qed

lemma countSolutions_spec:
  "wfGrid g \<Longrightarrow> noConflicts g \<Longrightarrow> numEmpty g < n \<Longrightarrow> count \<le> 2
     \<Longrightarrow> countSolutions n g count = Some (Inr (g, min 2 (count + card (completions g))))"
proof (induction n arbitrary: g count)
  case 0
  then show ?case by simp
next
  case (Suc n)
  show ?case
  proof (cases "count > 1")
    case True
    with Suc.prems(4) have "count = 2" by simp
    then show ?thesis by simp
  next
    case le: False
    then have c1: "count \<le> 1" by simp
    note fe = firstEmpty_wf [OF Suc.prems(1)]
    show ?thesis
    proof (cases "find (\<lambda>p. cellOf g p = 0) allPositions")
      case None
      then have "isComplete g" by (rule find_empty_None)
      with Suc.prems have "solutionGrid g" by (simp add: solutionGrid_def)
      then have "completions g = {g}" by (rule completions_complete)
      with le fe None c1 show ?thesis by simp
    next
      case (Some p)
      then have p: "p \<in> set allPositions" and z: "cellOf g p = 0"
        using find_empty_Some by blast+
      from Suc.prems(3) have ne: "numEmpty g \<le> n" by simp
      have "countNums n g count (fst p) (snd p) [1 ..< 10]
          = Some (Inr (g, min 2 (count + card (\<Union>v\<in>set [1 ..< 10]. completions (putCell g p v)))))"
        using Suc.IH Suc.prems(1,2) p z ne
        by (rule countNums_spec) (use c1 in simp_all)
      moreover have "(\<Union>v\<in>set [1 ..< 10]. completions (putCell g p v)) = completions g"
        using completions_union [OF Suc.prems(1) p z] by simp
      moreover have "countSolutions (Suc n) g count = countNums n g count (fst p) (snd p) [1 ..< 10]"
        using le fe Some by (cases p) simp
      ultimately show ?thesis by simp
    qed
  qed
qed

lemma hasUniqueSolution_spec:
  assumes "wfGrid g" "noConflicts g" "82 \<le> n"
  shows "hasUniqueSolution n g = Some (Inr (card (completions g) = 1))"
proof -
  have "numEmpty g < n" using numEmpty_le [of g] assms(3) by simp
  from countSolutions_spec [OF assms(1,2) this, of 0]
  have "countSolutions n g 0 = Some (Inr (g, min 2 (card (completions g))))" by simp
  moreover have "(min 2 (card (completions g)) = 1) = (card (completions g) = 1)" by auto
  ultimately show ?thesis by (simp add: hasUniqueSolution_def cloneGrid_def)
qed

lemma sub_noConflicts:
  assumes "solutionGrid s" "extendsGrid s g"
  shows "noConflicts g"
  unfolding noConflicts_iff
proof (intro ballI notI)
  fix p q assume pq: "p \<in> set allPositions" "q \<in> set allPositions" and c: "conflict g p q"
  from c have "cellOf g p \<noteq> 0" "cellOf g q \<noteq> 0" "cellOf g p = cellOf g q"
    by (auto simp: conflict_def)
  with assms(2) pq have "cellOf s p = cellOf g p" "cellOf s q = cellOf g q"
    by (simp_all add: extendsGrid_def)
  with c have "conflict s p q" by (simp add: conflict_def)
  with assms(1) pq show False by (simp add: solutionGrid_def noConflicts_iff)
qed

lemma extendsGrid_clear:
  assumes "wfGrid g" "p \<in> set allPositions" "extendsGrid s g"
  shows "extendsGrid s (putCell g p 0)"
  using assms by (simp add: extendsGrid_def cellOf_putCell)

lemma numEmpty_clear:
  assumes "wfGrid g" "p \<in> set allPositions"
  shows "numEmpty (putCell g p 0) \<le> Suc (numEmpty g)"
proof -
  have "emptyCells (putCell g p 0) \<subseteq> insert p (emptyCells g)"
    using assms by (auto simp: emptyCells_def cellOf_putCell split: if_splits)
  then have "card (emptyCells (putCell g p 0)) \<le> card (insert p (emptyCells g))"
    by (intro card_mono) simp_all
  also have "\<dots> \<le> Suc (card (emptyCells g))" by (simp add: card_insert_if)
  finally show ?thesis by (simp add: numEmpty_def)
qed

lemma removeLoop_spec:
  assumes sol: "solutionGrid sol" and n: "82 \<le> n"
  shows "carved sol puz \<Longrightarrow> set ps \<subseteq> set allPositions \<Longrightarrow>
     \<exists>puz' removed'. removeLoop n target puz removed ps = Some (Inr (puz', removed'))
        \<and> carved sol puz'
        \<and> removed' \<le> max removed target
        \<and> numEmpty puz' + removed \<le> numEmpty puz + removed'"
proof (induction ps arbitrary: puz removed)
  case Nil
  then show ?case by simp
next
  case (Cons p ps)
  obtain row col where rc: "p = (row, col)" by (cases p)
  from Cons.prems have p: "p \<in> set allPositions" and ps: "set ps \<subseteq> set allPositions" by auto
  from Cons.prems(1) have wf: "wfGrid puz" and ex: "extendsGrid sol puz"
    and un: "completions puz = {sol}" by (simp_all add: carved_def)
  show ?case
  proof (cases "removed \<ge> target")
    case True
    then have "removeLoop n target puz removed (p # ps) = Some (Inr (puz, removed))"
      by (simp add: rc)
    with Cons.prems(1) True show ?thesis by simp
  next
    case False
    let ?p1 = "putCell puz p 0"
    from p rc have rcr: "row < 9" "col < 9" by (auto simp: set_allPositions)
    have gc: "getCell puz row col = Inr (Some (cellOf puz p))"
      using wf rcr by (simp add: getCell_wf cellOf_def rc)
    have put: "setCell puz row col 0 = Inr ?p1" "wfGrid ?p1"
      using putCell_wf [OF wf p, of 0] by (simp_all add: rc)
    have ex1: "extendsGrid sol ?p1" using wf p ex by (rule extendsGrid_clear)
    have nc1: "noConflicts ?p1" using sol ex1 by (rule sub_noConflicts)
    have hu: "hasUniqueSolution n ?p1 = Some (Inr (card (completions ?p1) = 1))"
      using put(2) nc1 n by (rule hasUniqueSolution_spec)
    have mem: "sol \<in> completions ?p1" using sol ex1 by (simp add: completions_def)
    show ?thesis
    proof (cases "card (completions ?p1) = 1")
      case True
      then obtain x where "completions ?p1 = {x}" by (rule card_1_singletonE)
      with mem have "completions ?p1 = {sol}" by auto
      with put(2) ex1 have cv: "carved sol ?p1" by (simp add: carved_def)
      from Cons.IH [OF cv ps, of "removed + 1"]
      obtain puz' removed' where r: "removeLoop n target ?p1 (removed + 1) ps = Some (Inr (puz', removed'))"
        and c': "carved sol puz'" and le: "removed' \<le> max (removed + 1) target"
        and em: "numEmpty puz' + (removed + 1) \<le> numEmpty ?p1 + removed'" by blast
      have eq: "removeLoop n target puz removed (p # ps) = Some (Inr (puz', removed'))"
        using False gc put(1) hu True r by (simp add: rc)
      from le False have "removed' \<le> max removed target" by simp
      moreover from em numEmpty_clear [OF wf p]
      have "numEmpty puz' + removed \<le> numEmpty puz + removed'" by simp
      ultimately show ?thesis unfolding eq using c' by simp
    next
      case nu: False
      have "cellOf puz p \<le> 9" using wf rcr by (simp add: cellOf_def rc wfGrid_cell)
      from putCell_wf(1) [OF put(2) p this]
      have "setCell ?p1 row col (cellOf puz p) = Inr (putCell ?p1 p (cellOf puz p))"
        by (simp add: rc)
      moreover have "putCell ?p1 p (cellOf puz p) = puz" using wf p by (rule putCell_restore)
      ultimately have sc: "setCell ?p1 row col (cellOf puz p) = Inr puz" by simp
      from Cons.IH [OF Cons.prems(1) ps, of removed]
      obtain puz' removed' where r: "removeLoop n target puz removed ps = Some (Inr (puz', removed'))"
        and c': "carved sol puz'" and le: "removed' \<le> max removed target"
        and em: "numEmpty puz' + removed \<le> numEmpty puz + removed'" by blast
      have eq: "removeLoop n target puz removed (p # ps) = Some (Inr (puz', removed'))"
        using False gc put(1) hu nu sc r by (simp add: rc)
      show ?thesis unfolding eq using c' le em by simp
    qed
  qed
qed

lemma numEmpty_solution: "solutionGrid s \<Longrightarrow> numEmpty s = 0"
  by (auto simp: numEmpty_def emptyCells_def solutionGrid_def isComplete_iff)

lemma removeCells_spec:
  assumes rr: "rndRange mr" and sol: "solutionGrid sol" and n: "82 \<le> n"
  shows "\<exists>puz removed w'. removeCells mr n sol d w = Some (Inr ((puz, removed), w'))
           \<and> carved sol puz \<and> removed \<le> targetRemoved d \<and> numEmpty puz \<le> removed"
proof -
  from shuffleArray_perm [OF rr, of allPositions w]
  obtain ps w' where sh: "shuffleArray mr allPositions w = Inr (ps, w')"
    and st: "set ps = set allPositions" by blast
  have cv: "carved sol sol"
    using sol by (simp add: carved_def solutionGrid_def extendsGrid_refl completions_complete)
  from st have "set ps \<subseteq> set allPositions" by simp
  from removeLoop_spec [OF sol n cv this, of "targetRemoved d" 0]
  obtain puz removed where r: "removeLoop n (targetRemoved d) sol 0 ps = Some (Inr (puz, removed))"
    and c: "carved sol puz" and le: "removed \<le> max 0 (targetRemoved d)"
    and em: "numEmpty puz + 0 \<le> numEmpty sol + removed" by blast
  have eq: "removeCells mr n sol d w = Some (Inr ((puz, removed), w'))"
    using sh r by (simp add: removeCells_def cloneGrid_def)
  from em numEmpty_solution [OF sol] have "numEmpty puz \<le> removed" by simp
  with c le show ?thesis unfolding eq by simp
qed

lemma fillAndCarve_spec:
  assumes rr: "rndRange mr" and n: "82 \<le> n"
  shows "\<exists>pair w'. fillAndCarve mr n d w = Some (Inr (pair, w')) \<and> goodPair d pair"
proof -
  have ne: "numEmpty createEmptyGrid < n" using numEmpty_le [of createEmptyGrid] n by simp
  from fillGrid_spec [OF rr createEmptyGrid_wf createEmptyGrid_noConflicts ne, of w]
  obtain b sol w1 where f: "fillGrid mr n createEmptyGrid w = Some (Inr (b, sol, w1))"
    and bt: "b \<longrightarrow> solutionGrid sol \<and> extendsGrid sol createEmptyGrid"
    and bf: "\<not> b \<longrightarrow> sol = createEmptyGrid \<and> completions createEmptyGrid = {}"
    unfolding fillSpec_def by blast
  from bf completions_empty_grid have b by blast
  with bt have s: "solutionGrid sol" by simp
  from f have g: "generateCompleteGrid mr n w = Some (Inr (sol, w1))"
    by (simp add: generateCompleteGrid_def)
  from removeCells_spec [OF rr s n, of d w1]
  obtain puz removed w2 where r: "removeCells mr n sol d w1 = Some (Inr ((puz, removed), w2))"
    and c: "carved sol puz" and le: "removed \<le> targetRemoved d" "numEmpty puz \<le> removed" by blast
  have eq: "fillAndCarve mr n d w = Some (Inr (\<lparr> thePuzzle = puz, theSolution = sol \<rparr>, w2))"
    using g r by (simp add: fillAndCarve_def)
  show ?thesis unfolding eq using s c le by (simp add: goodPair_def)
qed

lemma verifyDifficulty_total:
  assumes "wfGrid puz"
  shows "\<exists>b. verifyDifficulty puz d = Inr b"
proof -
  from solveLoop_total [OF assms] obtain res where
    "solveLoop puz (difficultyTechniques d) [] 0 = Inr res" by blast
  then show ?thesis
    by (simp add: verifyDifficulty_def solvePuzzleWithTechniques_def cloneGrid_def)
qed

lemma generateLoop_spec:
  assumes rr: "rndRange mr" and n: "82 \<le> n"
  shows "100 - attempts = k \<Longrightarrow>
     \<exists>pair w'. generateLoop mr n d attempts w = Some (Inr (pair, w')) \<and> goodPair d pair"
proof (induction k arbitrary: attempts w)
  case 0
  then have "\<not> attempts < 100" by simp
  then have "generateLoop mr n d attempts w = fillAndCarve mr n d w"
    by (simp add: generateLoop.simps [of mr n d attempts w])
  with fillAndCarve_spec [OF rr n, of d w] show ?case by simp
next
  case (Suc k)
  then have lt: "attempts < 100" and k: "100 - (attempts + 1) = k" by simp_all
  from fillAndCarve_spec [OF rr n, of d w]
  obtain pair w2 where fc: "fillAndCarve mr n d w = Some (Inr (pair, w2))"
    and gp: "goodPair d pair" by blast
  show ?case
  proof (cases "d = easy \<or> attempts + 1 > 10")
    case True
    then have "generateLoop mr n d attempts w = Some (Inr (pair, w2))"
      using lt fc by (simp add: generateLoop.simps [of mr n d attempts w])
    with gp show ?thesis by simp
  next
    case False
    from gp have "wfGrid (thePuzzle pair)" by (simp add: goodPair_def carved_def)
    from verifyDifficulty_total [OF this, of d]
    obtain b where vd: "verifyDifficulty (thePuzzle pair) d = Inr b" by blast
    show ?thesis
    proof (cases b)
      case True
      then have "generateLoop mr n d attempts w = Some (Inr (pair, w2))"
        using lt fc False vd by (simp add: generateLoop.simps [of mr n d attempts w])
      with gp show ?thesis by simp
    next
      case nb: False
      then have "generateLoop mr n d attempts w = generateLoop mr n d (attempts + 1) w2"
        using lt fc False vd by (simp add: generateLoop.simps [of mr n d attempts w])
      with Suc.IH [OF k, of w2] show ?thesis by simp
    qed
  qed
qed

lemma generatePuzzle_spec:
  assumes "rndRange mr" "82 \<le> n"
  shows "\<exists>pair w'. generatePuzzle mr n d w = Some (Inr (pair, w')) \<and> goodPair d pair"
  unfolding generatePuzzle_def using generateLoop_spec [OF assms refl] .

lemma distinct_allPositions: "distinct allPositions"
  by (simp add: allPositions_def distinct_product)

lemma countClues_wf:
  assumes "wfGrid g"
  shows "countClues g = Inr (81 - numEmpty g)"
proof -
  let ?F = "filter (\<lambda>p. cellOf g p \<noteq> 0) allPositions"
  let ?E = "filter (\<lambda>p. cellOf g p = 0) allPositions"
  have "filterE (\<lambda>(row, col). bindE (cellIs g row col 0) (\<lambda>empty. Inr (\<not> empty))) allPositions
      = Inr ?F"
    by (rule filterE_Inr) (use assms in \<open>auto simp: set_allPositions cellIs_wf cellOf_def\<close>)
  then have c: "countClues g = Inr (length ?F)" by (simp add: countClues_def)
  have "length ?E + length ?F = 81"
    using sum_length_filter_compl [of "\<lambda>p. cellOf g p = 0" allPositions]
    by (simp add: length_allPositions)
  moreover have "length ?E = numEmpty g"
  proof -
    have e: "emptyCells g = set ?E" by (auto simp: emptyCells_def)
    have "distinct ?E" using distinct_allPositions by simp
    then have "card (set ?E) = length ?E" by (rule distinct_card)
    then show ?thesis unfolding numEmpty_def e by simp
  qed
  ultimately show ?thesis using c by simp
qed

section \<open>C9: a value is valid in its own slot\<close>

text \<open>
  C9. For every complete 9x9 grid \<open>g\<close> without conflicts and every position \<open>(r, c)\<close> with
  \<open>r, c\<close> in \<open>0..8\<close>, \<open>isValidPlacement(g, r, c, g[r][c])\<close> returns true: the three scans skip
  the cell itself, and no other cell of its row, column or box holds the same value.
\<close>

theorem isValidPlacement_own_value:
  assumes "wfGrid g" "isComplete g" "noConflicts g" "r < 9" "c < 9"
  shows "isValidPlacement g r c (g ! r ! c) = Inr True"
proof (cases "g ! r ! c = 0")
  case True
  then show ?thesis by (simp add: isValidPlacement_def)
next
  case False
  with assms show ?thesis by (simp add: isValidPlacement_wf noConflicts_freeFor)
qed

theorem isValidPlacement_own_value_witness:
  "wfGrid exampleSolution \<and> isComplete exampleSolution \<and> noConflicts exampleSolution
   \<and> isValidPlacement exampleSolution 4 7 (exampleSolution ! 4 ! 7) = Inr True"
proof -
  have h: "wfGrid exampleSolution" "isComplete exampleSolution" "noConflicts exampleSolution"
    by code_simp+
  show ?thesis
    using h isValidPlacement_own_value [OF h, of 4 7] by simp
qed



section \<open>C10: checkAgainstSolution compares only filled cells\<close>

lemma wfBoard_cell: "wfBoard b \<Longrightarrow> r < 9 \<Longrightarrow> c < 9 \<Longrightarrow> getCell b r c = Inr (Some (b ! r ! c))"
  by (simp add: wfBoard_def getCell_def list_all_length)

lemma boardValue_wf:
  "wfBoard b \<Longrightarrow> r < 9 \<Longrightarrow> c < 9 \<Longrightarrow> boardValue b r c = Inr (cellValue (b ! r ! c))"
  by (simp add: boardValue_def wfBoard_cell)

lemma checkAgainstSolution_wf:
  assumes "wfBoard board" "wfGrid solution"
  shows "checkAgainstSolution board solution =
     Inr \<lparr> correct = (filter (mismatch board solution) allPositions = []),
           errors = filter (mismatch board solution) allPositions \<rparr>"
proof -
  have "filterE (\<lambda>(row, col).
                bindE (boardValue board row col) (\<lambda>v.
                  if v \<noteq> 0
                  then bindE (getCell solution row col) (\<lambda>s. Inr (Some v \<noteq> s))
                  else Inr False))
              allPositions = Inr (filter (mismatch board solution) allPositions)"
    by (rule filterE_Inr)
      (use assms in \<open>auto simp: set_allPositions boardValue_wf getCell_wf mismatch_def\<close>)
  then show ?thesis by (simp add: checkAgainstSolution_def)
qed

lemma checkAgainstSolution_all_empty:
  assumes "wfBoard board" "\<forall>p\<in>set allPositions. cellValue (board ! fst p ! snd p) = 0"
  shows "checkAgainstSolution board solution = Inr \<lparr> correct = True, errors = [] \<rparr>"
proof -
  have "filterE (\<lambda>(row, col).
                bindE (boardValue board row col) (\<lambda>v.
                  if v \<noteq> 0
                  then bindE (getCell solution row col) (\<lambda>s. Inr (Some v \<noteq> s))
                  else Inr False))
              allPositions = Inr (filter (\<lambda>p. False) allPositions)"
    by (rule filterE_Inr)
      (use assms in \<open>auto simp: set_allPositions boardValue_wf\<close>)
  then show ?thesis by (simp add: checkAgainstSolution_def)
qed

text \<open>
  C10. On a 9x9 board and a 9x9 solution, \<open>checkAgainstSolution\<close> returns a result whose
  \<open>errors\<close> are exactly the positions (in row-major order) holding a non-zero value different
  from the solution; a cell with value 0 is never listed; \<open>correct\<close> holds iff \<open>errors\<close> is
  empty. A board whose cells are all empty is reported correct with no errors, whatever the
  solution argument is.
\<close>

theorem checkAgainstSolution_filled_only:
  assumes "wfBoard board"
  shows "(wfGrid solution \<longrightarrow>
           (\<exists>res. checkAgainstSolution board solution = Inr res
              \<and> errors res = filter (mismatch board solution) allPositions
              \<and> (\<forall>p\<in>set allPositions.
                    cellValue (board ! fst p ! snd p) = 0 \<longrightarrow> p \<notin> set (errors res))
              \<and> correct res = (errors res = [])))
       \<and> ((\<forall>p\<in>set allPositions. cellValue (board ! fst p ! snd p) = 0)
            \<longrightarrow> checkAgainstSolution board solution = Inr \<lparr> correct = True, errors = [] \<rparr>)"
proof (intro conjI impI)
  assume "wfGrid solution"
  with assms show "\<exists>res. checkAgainstSolution board solution = Inr res
              \<and> errors res = filter (mismatch board solution) allPositions
              \<and> (\<forall>p\<in>set allPositions.
                    cellValue (board ! fst p ! snd p) = 0 \<longrightarrow> p \<notin> set (errors res))
              \<and> correct res = (errors res = [])"
    by (simp add: checkAgainstSolution_wf mismatch_def)
next
  assume "\<forall>p\<in>set allPositions. cellValue (board ! fst p ! snd p) = 0"
  with assms show "checkAgainstSolution board solution = Inr \<lparr> correct = True, errors = [] \<rparr>"
    by (rule checkAgainstSolution_all_empty)
qed

theorem checkAgainstSolution_filled_only_witness:
  "wfBoard exampleBoard \<and> wfGrid exampleSolution
   \<and> checkAgainstSolution exampleBoard exampleSolution = Inr \<lparr> correct = False, errors = [(0, 0)] \<rparr>"
proof -
  have h: "wfBoard exampleBoard" "wfGrid exampleSolution" by code_simp+
  have "filter (mismatch exampleBoard exampleSolution) allPositions = [(0, 0)]" by code_simp
  with h checkAgainstSolution_filled_only [OF h(1), of exampleSolution] show ?thesis by auto
qed


section \<open>C2: naked single comes first\<close>

text \<open>
  C2. \<open>findNextHint\<close> tries naked single, then hidden single, then naked pair, and returns the
  first result found: a hint of a later technique is returned only when every earlier
  technique is disallowed or found nothing. On a 9x9 grid, when naked single is allowed and
  some empty cell has exactly one candidate, the hint is a naked single, its target is such a
  cell, and no cell before it in row-major order is one; its value is that single candidate.
  \<open>getHint\<close> is \<open>findNextHint\<close> with all four technique names allowed.
\<close>

theorem findNextHint_naked_single_first:
  assumes "wfGrid grid" "initializeCandidates grid = Inr cands"
  shows "(naked_single \<in> set allowedTechniques
            \<and> (\<exists>p\<in>set allPositions. isNakedSingle grid cands p)
          \<longrightarrow> (\<exists>h. findNextHint grid allowedTechniques = Inr (Some h)
                 \<and> technique h = naked_single
                 \<and> targetCell h \<in> set allPositions
                 \<and> isNakedSingle grid cands (targetCell h)
                 \<and> (\<forall>q\<in>set allPositions. before q (targetCell h) \<longrightarrow> \<not> isNakedSingle grid cands q)
                 \<and> targetValue h = cands ! fst (targetCell h) ! snd (targetCell h) ! 0))
       \<and> (\<forall>h. findNextHint grid allowedTechniques = Inr (Some h) \<longrightarrow>
             (technique h = naked_single \<and> naked_single \<in> set allowedTechniques
                \<and> findNakedSingle grid cands = Inr (Some h))
           \<or> (technique h = hidden_single \<and> hidden_single \<in> set allowedTechniques
                \<and> (naked_single \<notin> set allowedTechniques \<or> findNakedSingle grid cands = Inr None)
                \<and> findHiddenSingle grid cands = Inr (Some h))
           \<or> (technique h = naked_pair \<and> naked_pair \<in> set allowedTechniques
                \<and> (naked_single \<notin> set allowedTechniques \<or> findNakedSingle grid cands = Inr None)
                \<and> (hidden_single \<notin> set allowedTechniques \<or> findHiddenSingle grid cands = Inr None)
                \<and> findNakedPair grid cands = Inr (Some h)))
       \<and> (\<forall>board. boardToGrid board = grid \<longrightarrow>
             getHint board = findNextHint grid defaultTechniques
             \<and> naked_single \<in> set defaultTechniques)"
proof (intro conjI impI allI)
  from assms have c: "cands = candTable grid" by (simp add: initializeCandidates_wf)
  assume a: "naked_single \<in> set allowedTechniques \<and> (\<exists>p\<in>set allPositions. isNakedSingle grid cands p)"
  then obtain p0 where "p0 \<in> set allPositions" "isNakedSingle grid cands p0" by blast
  then have "find (isNakedSingle grid cands) allPositions \<noteq> None"
    by (metis find_None_iff)
  then obtain p where p: "find (isNakedSingle grid cands) allPositions = Some p" by blast
  note first = find_allPositions_Some [OF p]
  have fns: "findNakedSingle grid cands = Inr (Some (nakedSingleHint grid cands p))"
    using findNakedSingle_wf [OF assms(1)] p by (simp add: c)
  have "findNextHint grid allowedTechniques = Inr (Some (nakedSingleHint grid cands p))"
    using a by (simp add: findNextHint_def assms(2) fns orElseE_def)
  with first show "\<exists>h. findNextHint grid allowedTechniques = Inr (Some h)
                 \<and> technique h = naked_single
                 \<and> targetCell h \<in> set allPositions
                 \<and> isNakedSingle grid cands (targetCell h)
                 \<and> (\<forall>q\<in>set allPositions. before q (targetCell h) \<longrightarrow> \<not> isNakedSingle grid cands q)
                 \<and> targetValue h = cands ! fst (targetCell h) ! snd (targetCell h) ! 0"
    by (simp add: nakedSingleHint_def)
next
  fix h assume "findNextHint grid allowedTechniques = Inr (Some h)"
  then show "(technique h = naked_single \<and> naked_single \<in> set allowedTechniques
                \<and> findNakedSingle grid cands = Inr (Some h))
           \<or> (technique h = hidden_single \<and> hidden_single \<in> set allowedTechniques
                \<and> (naked_single \<notin> set allowedTechniques \<or> findNakedSingle grid cands = Inr None)
                \<and> findHiddenSingle grid cands = Inr (Some h))
           \<or> (technique h = naked_pair \<and> naked_pair \<in> set allowedTechniques
                \<and> (naked_single \<notin> set allowedTechniques \<or> findNakedSingle grid cands = Inr None)
                \<and> (hidden_single \<notin> set allowedTechniques \<or> findHiddenSingle grid cands = Inr None)
                \<and> findNakedPair grid cands = Inr (Some h))"
  proof (cases rule: findNextHint_cases)
    case (1 cs)
    with assms(2) have [simp]: "cs = cands" by simp
    from 1(2) show ?thesis
      by (auto dest: findNakedSingle_technique findHiddenSingle_technique findNakedPair_technique)
  qed
next
  fix board assume "boardToGrid board = grid"
  then show "getHint board = findNextHint grid defaultTechniques" by (simp add: getHint_def)
next
  show "naked_single \<in> set defaultTechniques" by (simp add: defaultTechniques_def)
qed

theorem findNextHint_naked_single_first_witness:
  "wfGrid orderingPuzzle
   \<and> initializeCandidates orderingPuzzle = Inr (candTable orderingPuzzle)
   \<and> isNakedSingle orderingPuzzle (candTable orderingPuzzle) (0, 4)
   \<and> isNakedSingle orderingPuzzle (candTable orderingPuzzle) (4, 5)
   \<and> map_sum id (map_option targetCell) (findNextHint orderingPuzzle [hidden_single]) = Inr (Some (4, 5))
   \<and> (\<exists>h. getHint (initializeBoard orderingPuzzle) = Inr (Some h)
          \<and> technique h = naked_single \<and> targetCell h = (0, 4) \<and> targetValue h = 5)"
proof -
  have wf: "wfGrid orderingPuzzle" by code_simp
  have ic: "initializeCandidates orderingPuzzle = Inr (candTable orderingPuzzle)"
    using wf by (rule initializeCandidates_wf)
  have n1: "isNakedSingle orderingPuzzle (candTable orderingPuzzle) (0, 4)" by code_simp
  have n2: "isNakedSingle orderingPuzzle (candTable orderingPuzzle) (4, 5)" by code_simp
  have hs: "map_sum id (map_option targetCell) (findNextHint orderingPuzzle [hidden_single])
      = Inr (Some (4, 5))" by code_simp
  have b: "boardToGrid (initializeBoard orderingPuzzle) = orderingPuzzle" by code_simp
  have mem: "(0, 4) \<in> set allPositions" by (simp add: set_allPositions)
  have none_before: "\<not> isNakedSingle orderingPuzzle (candTable orderingPuzzle) q"
    if "q \<in> set allPositions" "before q (0, 4)" for q
  proof -
    obtain a b where q: "q = (a, b)" by (cases q)
    from that(2) have "a = 0" "b < 4" by (simp_all add: before_def q)
    then have "q = (0, 0) \<or> q = (0, 1) \<or> q = (0, 2) \<or> q = (0, 3)"
      unfolding q by auto
    moreover have "\<not> isNakedSingle orderingPuzzle (candTable orderingPuzzle) (0, 0)"
      "\<not> isNakedSingle orderingPuzzle (candTable orderingPuzzle) (0, 1)"
      "\<not> isNakedSingle orderingPuzzle (candTable orderingPuzzle) (0, 2)"
      "\<not> isNakedSingle orderingPuzzle (candTable orderingPuzzle) (0, 3)"
      by code_simp+
    ultimately show ?thesis by blast
  qed
  have v: "candTable orderingPuzzle ! 0 ! 4 ! 0 = 5" by code_simp
  from findNextHint_naked_single_first [OF wf ic, of defaultTechniques]
  obtain h where h: "findNextHint orderingPuzzle defaultTechniques = Inr (Some h)"
      "technique h = naked_single" "targetCell h \<in> set allPositions"
      "isNakedSingle orderingPuzzle (candTable orderingPuzzle) (targetCell h)"
      "\<forall>q\<in>set allPositions. before q (targetCell h) \<longrightarrow> \<not> isNakedSingle orderingPuzzle (candTable orderingPuzzle) q"
      "targetValue h = candTable orderingPuzzle ! fst (targetCell h) ! snd (targetCell h) ! 0"
    and gh: "getHint (initializeBoard orderingPuzzle) = findNextHint orderingPuzzle defaultTechniques"
    using n1 mem b by (auto simp: defaultTechniques_def)
  have "targetCell h = (0, 4)"
  proof (rule ccontr)
    assume ne: "targetCell h \<noteq> (0, 4)"
    obtain r c where rc: "targetCell h = (r, c)" by (cases "targetCell h")
    from ne rc have "before (targetCell h) (0, 4) \<or> before (0, 4) (targetCell h)"
      by (auto simp: before_def)
    then show False
    proof
      assume "before (targetCell h) (0, 4)"
      with h(3,4) none_before show False by blast
    next
      assume "before (0, 4) (targetCell h)"
      with h(5) mem n1 show False by blast
    qed
  qed
  with h gh v wf ic n1 n2 hs show ?thesis by auto
qed

section \<open>C4: pointing pair is never produced\<close>

text \<open>
  C4. Whatever the grid and the list of allowed techniques (the list of the hard difficulty
  contains \<open>pointing_pair\<close>), a hint returned by \<open>findNextHint\<close> never has the technique
  \<open>pointing_pair\<close>.
\<close>

theorem findNextHint_never_pointing_pair:
  "findNextHint grid allowedTechniques = Inr (Some h) \<Longrightarrow> technique h \<noteq> pointing_pair"
  by (elim findNextHint_cases)
     (auto dest: findNakedSingle_technique findHiddenSingle_technique findNakedPair_technique)

theorem findNextHint_never_pointing_pair_witness:
  "findNextHint examplePuzzle (difficultyTechniques hard) = Inr (Some exampleHint)
   \<and> pointing_pair \<in> set (difficultyTechniques hard)
   \<and> technique exampleHint \<noteq> pointing_pair"
proof -
  have e: "findNextHint examplePuzzle (difficultyTechniques hard) = Inr (Some exampleHint)"
    by code_simp
  from findNextHint_never_pointing_pair [OF e] e show ?thesis by simp
qed

section \<open>C6: the technique-limited solve always returns\<close>

text \<open>
  C6. On a 9x9 puzzle \<open>solvePuzzleWithTechniques\<close> throws nothing and returns a result, for
  every list of allowed techniques. Each state of its loop over a 9x9 working grid returns as
  well: with \<open>solved = true\<close> when the grid has no empty cell, with \<open>solved = false\<close> when an
  empty cell remains and no allowed technique yields a hint, by writing the hint's value and
  going round again otherwise, and with \<open>solved = false\<close> once 1000 iterations have run.
\<close>

theorem solvePuzzleWithTechniques_total:
  assumes "wfGrid puzzle"
  shows "(\<exists>res. solvePuzzleWithTechniques puzzle allowedTechniques = Inr res)
     \<and> (\<forall>g used i. wfGrid g \<longrightarrow>
          (\<exists>res. solveLoop g allowedTechniques used i = Inr res)
        \<and> (i < 1000 \<and> (\<forall>p\<in>set allPositions. cellOf g p \<noteq> 0)
             \<longrightarrow> solveLoop g allowedTechniques used i = Inr \<lparr> solved = True, techniques = used \<rparr>)
        \<and> (i < 1000 \<and> (\<exists>p\<in>set allPositions. cellOf g p = 0)
                \<and> findNextHint g allowedTechniques = Inr None
             \<longrightarrow> solveLoop g allowedTechniques used i = Inr \<lparr> solved = False, techniques = used \<rparr>)
        \<and> (\<forall>h. i < 1000 \<and> (\<exists>p\<in>set allPositions. cellOf g p = 0)
                \<and> findNextHint g allowedTechniques = Inr (Some h)
             \<longrightarrow> solveLoop g allowedTechniques used i
                   = solveLoop (g[fst (targetCell h) := (g ! fst (targetCell h))[snd (targetCell h) := targetValue h]])
                       allowedTechniques (used @ [technique h]) (i + 1))
        \<and> (1000 \<le> i
             \<longrightarrow> solveLoop g allowedTechniques used i = Inr \<lparr> solved = False, techniques = used \<rparr>))"
proof (intro conjI allI impI)
  show "\<exists>res. solvePuzzleWithTechniques puzzle allowedTechniques = Inr res"
    unfolding solvePuzzleWithTechniques_def cloneGrid_def
    using assms by (simp add: solveLoop_total)
next
  fix g :: Grid and used :: "TechniqueName list" and i :: nat
  assume "wfGrid g"
  then show "\<exists>res. solveLoop g allowedTechniques used i = Inr res" by (rule solveLoop_total)
next
  fix g :: Grid and used :: "TechniqueName list" and i :: nat
  assume wf: "wfGrid g" and a: "i < 1000 \<and> (\<forall>p\<in>set allPositions. cellOf g p \<noteq> 0)"
  then have "hasEmptyCell g = Inr False" by (simp add: hasEmptyCell_wf)
  with a show "solveLoop g allowedTechniques used i = Inr \<lparr> solved = True, techniques = used \<rparr>"
    by (simp add: solveLoop.simps [of g])
next
  fix g :: Grid and used :: "TechniqueName list" and i :: nat
  assume wf: "wfGrid g" and a: "i < 1000 \<and> (\<exists>p\<in>set allPositions. cellOf g p = 0)
                \<and> findNextHint g allowedTechniques = Inr None"
  then have "hasEmptyCell g = Inr True" by (simp add: hasEmptyCell_wf)
  with a show "solveLoop g allowedTechniques used i = Inr \<lparr> solved = False, techniques = used \<rparr>"
    by (simp add: solveLoop.simps [of g])
next
  fix g :: Grid and used :: "TechniqueName list" and i :: nat and h :: Hint
  assume wf: "wfGrid g" and a: "i < 1000 \<and> (\<exists>p\<in>set allPositions. cellOf g p = 0)
                \<and> findNextHint g allowedTechniques = Inr (Some h)"
  from findNextHint_ok [OF wf, of allowedTechniques] a have "goodHint h" by simp
  with wf have "setCell g (fst (targetCell h)) (snd (targetCell h)) (targetValue h)
      = Inr (g[fst (targetCell h) := (g ! fst (targetCell h))[snd (targetCell h) := targetValue h]])"
    by (simp add: goodHint_def setCell_wf)
  moreover from wf a have "hasEmptyCell g = Inr True" by (simp add: hasEmptyCell_wf)
  ultimately show "solveLoop g allowedTechniques used i
                   = solveLoop (g[fst (targetCell h) := (g ! fst (targetCell h))[snd (targetCell h) := targetValue h]])
                       allowedTechniques (used @ [technique h]) (i + 1)"
    using a by (simp add: solveLoop.simps [of g])
next
  fix g :: Grid and used :: "TechniqueName list" and i :: nat
  assume "1000 \<le> i"
  then show "solveLoop g allowedTechniques used i = Inr \<lparr> solved = False, techniques = used \<rparr>"
    by (simp add: solveLoop.simps [of g])
qed

theorem solvePuzzleWithTechniques_total_witness:
  "wfGrid examplePuzzle
   \<and> (\<exists>res. solvePuzzleWithTechniques examplePuzzle (difficultyTechniques hard) = Inr res)
   \<and> solvePuzzleWithTechniques examplePuzzle (difficultyTechniques easy)
       = Inr \<lparr> solved = True, techniques = [naked_single, naked_single, naked_single] \<rparr>
   \<and> solvePuzzleWithTechniques examplePuzzle []
       = Inr \<lparr> solved = False, techniques = [] \<rparr>"
proof -
  have wf: "wfGrid examplePuzzle" by code_simp
  have e1: "solvePuzzleWithTechniques examplePuzzle (difficultyTechniques easy)
       = Inr \<lparr> solved = True, techniques = [naked_single, naked_single, naked_single] \<rparr>"
    by code_simp
  have e2: "solvePuzzleWithTechniques examplePuzzle []
       = Inr \<lparr> solved = False, techniques = [] \<rparr>"
    by code_simp
  from solvePuzzleWithTechniques_total [OF wf, of "difficultyTechniques hard"] wf e1 e2
  show ?thesis by blast
qed


section \<open>C5: filling the empty grid cannot fail\<close>

text \<open>
  C5. Whatever numbers in \<open>[0, 1)\<close> the random source yields, \<open>fillGrid\<close> on the empty grid
  returns (a recursion depth of 82 is enough), returns true, and leaves a grid in which every
  cell holds a value in 1..9 and no two equal values share a row, column or box;
  \<open>generateCompleteGrid\<close> returns that grid.
\<close>

theorem generateCompleteGrid_succeeds:
  assumes "rndRange mathRandom" "82 \<le> n"
  shows "\<exists>g w'. fillGrid mathRandom n createEmptyGrid w = Some (Inr (True, g, w'))
           \<and> generateCompleteGrid mathRandom n w = Some (Inr (g, w'))
           \<and> wfGrid g
           \<and> (\<forall>p\<in>set allPositions. 1 \<le> cellOf g p \<and> cellOf g p \<le> 9)
           \<and> noConflicts g"
proof -
  have "numEmpty createEmptyGrid < n" using numEmpty_le [of createEmptyGrid] assms(2) by simp
  with fillGrid_spec [OF assms(1) createEmptyGrid_wf createEmptyGrid_noConflicts, of n w]
  obtain b g w' where f: "fillGrid mathRandom n createEmptyGrid w = Some (Inr (b, g, w'))"
    and bt: "b \<longrightarrow> solutionGrid g \<and> extendsGrid g createEmptyGrid"
    and bf: "\<not> b \<longrightarrow> g = createEmptyGrid \<and> completions createEmptyGrid = {}"
    unfolding fillSpec_def by blast
  from bf completions_empty_grid have b by blast
  with bt have s: "solutionGrid g" by simp
  then have "\<forall>p\<in>set allPositions. 1 \<le> cellOf g p \<and> cellOf g p \<le> 9"
    using solution_value_range by blast
  moreover from f \<open>b\<close> have "fillGrid mathRandom n createEmptyGrid w = Some (Inr (True, g, w'))"
    by simp
  moreover from this have "generateCompleteGrid mathRandom n w = Some (Inr (g, w'))"
    by (simp add: generateCompleteGrid_def)
  ultimately show ?thesis using s unfolding solutionGrid_def by blast
qed

theorem generateCompleteGrid_succeeds_witness:
  "rndRange (\<lambda>u::unit. (0, u))
   \<and> (\<exists>g w'. fillGrid (\<lambda>u::unit. (0, u)) 82 createEmptyGrid
                 \<lparr> randomFn = SeededRandom (Some 20240315), mathState = () \<rparr>
               = Some (Inr (True, g, w'))
          \<and> wfGrid g \<and> noConflicts g)"
proof -
  have r: "rndRange (\<lambda>u::unit. (0, u))" by (simp add: rndRange_def)
  from generateCompleteGrid_succeeds [OF r, of 82 "\<lparr> randomFn = SeededRandom (Some 20240315), mathState = () \<rparr>"]
  show ?thesis using r by auto
qed

section \<open>C1: the generated puzzle has exactly one solution\<close>

text \<open>
  C1. For every difficulty, \<open>generatePuzzle\<close> returns a pair in which the puzzle agrees with
  the solution on every non-zero cell, the solution is a complete conflict-free grid, the
  complete conflict-free grids extending the puzzle are exactly the solution, and
  \<open>countSolutions\<close> on the puzzle yields 1.
\<close>

theorem generatePuzzle_unique_solution:
  assumes "rndRange mathRandom" "82 \<le> n"
  shows "\<exists>pair w'. generatePuzzle mathRandom n difficulty w = Some (Inr (pair, w'))
     \<and> wfGrid (thePuzzle pair)
     \<and> (\<forall>p\<in>set allPositions. cellOf (thePuzzle pair) p \<noteq> 0
            \<longrightarrow> cellOf (thePuzzle pair) p = cellOf (theSolution pair) p)
     \<and> wfGrid (theSolution pair) \<and> isComplete (theSolution pair) \<and> noConflicts (theSolution pair)
     \<and> (\<forall>s. wfGrid s \<and> isComplete s \<and> noConflicts s \<and> extendsGrid s (thePuzzle pair)
            \<longleftrightarrow> s = theSolution pair)
     \<and> countSolutions n (cloneGrid (thePuzzle pair)) 0 = Some (Inr (thePuzzle pair, 1))
     \<and> hasUniqueSolution n (thePuzzle pair) = Some (Inr True)"
proof -
  from generatePuzzle_spec [OF assms, of difficulty w]
  obtain pair w' where g: "generatePuzzle mathRandom n difficulty w = Some (Inr (pair, w'))"
    and gp: "goodPair difficulty pair" by blast
  let ?puz = "thePuzzle pair" and ?sol = "theSolution pair"
  from gp have sol: "solutionGrid ?sol" and wf: "wfGrid ?puz" and ex: "extendsGrid ?sol ?puz"
    and un: "completions ?puz = {?sol}" by (simp_all add: goodPair_def carved_def)
  have agree: "\<forall>p\<in>set allPositions. cellOf ?puz p \<noteq> 0 \<longrightarrow> cellOf ?puz p = cellOf ?sol p"
    using ex by (simp add: extendsGrid_def)
  have only: "(wfGrid s \<and> isComplete s \<and> noConflicts s \<and> extendsGrid s ?puz) = (s = ?sol)" for s
  proof -
    have "(s \<in> completions ?puz) = (s = ?sol)" unfolding un by simp
    then show ?thesis by (simp add: completions_def solutionGrid_def)
  qed
  have nc: "noConflicts ?puz" using sol ex by (rule sub_noConflicts)
  have ne: "numEmpty ?puz < n" using numEmpty_le [of ?puz] assms(2) by simp
  have cs: "countSolutions n (cloneGrid ?puz) 0 = Some (Inr (?puz, 1))"
    using countSolutions_spec [OF wf nc ne, of 0] un by (simp add: cloneGrid_def)
  have hu: "hasUniqueSolution n ?puz = Some (Inr True)"
    using hasUniqueSolution_spec [OF wf nc assms(2)] un by simp
  from g wf agree sol only cs hu show ?thesis
    unfolding solutionGrid_def by blast
qed

theorem generatePuzzle_unique_solution_witness:
  "rndRange (\<lambda>u::unit. (1 / 2, u))
   \<and> (\<exists>pair w'. generatePuzzle (\<lambda>u::unit. (1 / 2, u)) 82 hard
                    \<lparr> randomFn = MathRandom, mathState = () \<rparr> = Some (Inr (pair, w'))
          \<and> hasUniqueSolution 82 (thePuzzle pair) = Some (Inr True)
          \<and> noConflicts (theSolution pair))"
proof -
  have r: "rndRange (\<lambda>u::unit. (1 / 2, u))" by (simp add: rndRange_def)
  from generatePuzzle_unique_solution [OF r, of 82 hard "\<lparr> randomFn = MathRandom, mathState = () \<rparr>"]
  show ?thesis using r by auto
qed

section \<open>C7: the clue count of a generated puzzle\<close>

text \<open>
  C7. The carve step removes at most \<open>81 - floor((min + max) / 2)\<close> cells, which is 39, 46
  and 53 for easy, medium and hard; every puzzle returned by \<open>generatePuzzle\<close> therefore has
  at least 42, 35 and 28 clues, which is at least the minimum of the difficulty's range.
\<close>

theorem generatePuzzle_clue_count:
  assumes "rndRange mathRandom" "82 \<le> n"
  shows "(\<forall>sol. wfGrid sol \<and> isComplete sol \<and> noConflicts sol \<longrightarrow>
            (\<exists>puz removed w'. removeCells mathRandom n sol difficulty w = Some (Inr ((puz, removed), w'))
                \<and> removed \<le> targetRemoved difficulty
                \<and> countClues puz = Inr (81 - numEmpty puz) \<and> 81 - removed \<le> 81 - numEmpty puz))
     \<and> targetRemoved difficulty = 81 - (fst (targetClues difficulty) + snd (targetClues difficulty)) div 2
     \<and> targetRemoved easy = 39 \<and> targetRemoved medium = 46 \<and> targetRemoved hard = 53
     \<and> (\<exists>pair w' k. generatePuzzle mathRandom n difficulty w = Some (Inr (pair, w'))
            \<and> countClues (thePuzzle pair) = Inr k
            \<and> 81 - targetRemoved difficulty \<le> k
            \<and> (case difficulty of easy \<Rightarrow> 42 | medium \<Rightarrow> 35 | hard \<Rightarrow> 28) \<le> k
            \<and> fst (targetClues difficulty) \<le> k)"
proof (intro conjI allI impI)
  fix sol assume "wfGrid sol \<and> isComplete sol \<and> noConflicts sol"
  then have s: "solutionGrid sol" by (simp add: solutionGrid_def)
  from removeCells_spec [OF assms(1) s assms(2), of difficulty w]
  obtain puz removed w' where r: "removeCells mathRandom n sol difficulty w = Some (Inr ((puz, removed), w'))"
    and c: "carved sol puz" and le: "removed \<le> targetRemoved difficulty" "numEmpty puz \<le> removed"
    by blast
  from c have "countClues puz = Inr (81 - numEmpty puz)" by (simp add: carved_def countClues_wf)
  with r le show "\<exists>puz removed w'. removeCells mathRandom n sol difficulty w = Some (Inr ((puz, removed), w'))
                \<and> removed \<le> targetRemoved difficulty
                \<and> countClues puz = Inr (81 - numEmpty puz) \<and> 81 - removed \<le> 81 - numEmpty puz"
    by (intro exI [of _ puz] exI [of _ removed] exI [of _ w']) simp
next
  show "targetRemoved difficulty = 81 - (fst (targetClues difficulty) + snd (targetClues difficulty)) div 2"
    by (simp add: targetRemoved_def split: prod.splits)
next
  show "targetRemoved easy = 39" "targetRemoved medium = 46" "targetRemoved hard = 53"
    by (simp_all add: targetRemoved_def)
next
  from generatePuzzle_spec [OF assms, of difficulty w]
  obtain pair w' where g: "generatePuzzle mathRandom n difficulty w = Some (Inr (pair, w'))"
    and gp: "goodPair difficulty pair" by blast
  from gp have wf: "wfGrid (thePuzzle pair)" and le: "numEmpty (thePuzzle pair) \<le> targetRemoved difficulty"
    by (simp_all add: goodPair_def carved_def)
  let ?k = "81 - numEmpty (thePuzzle pair)"
  have c: "countClues (thePuzzle pair) = Inr ?k" using wf by (rule countClues_wf)
  have k1: "81 - targetRemoved difficulty \<le> ?k" using le by simp
  have k2: "(case difficulty of easy \<Rightarrow> 42 | medium \<Rightarrow> 35 | hard \<Rightarrow> 28) \<le> ?k"
    using le by (cases difficulty) (simp_all add: targetRemoved_def)
  have k3: "fst (targetClues difficulty) \<le> ?k"
    using le by (cases difficulty) (simp_all add: targetRemoved_def)
  from g c k1 k2 k3 show "\<exists>pair w' k. generatePuzzle mathRandom n difficulty w = Some (Inr (pair, w'))
            \<and> countClues (thePuzzle pair) = Inr k
            \<and> 81 - targetRemoved difficulty \<le> k
            \<and> (case difficulty of easy \<Rightarrow> 42 | medium \<Rightarrow> 35 | hard \<Rightarrow> 28) \<le> k
            \<and> fst (targetClues difficulty) \<le> k"
    by blast
qed

theorem generatePuzzle_clue_count_witness:
  "rndRange (\<lambda>u::unit. (1 / 2, u))
   \<and> (\<exists>pair w' k. generatePuzzle (\<lambda>u::unit. (1 / 2, u)) 82 medium
                    \<lparr> randomFn = MathRandom, mathState = () \<rparr> = Some (Inr (pair, w'))
          \<and> countClues (thePuzzle pair) = Inr k \<and> 35 \<le> k)"
proof -
  have r: "rndRange (\<lambda>u::unit. (1 / 2, u))" by (simp add: rndRange_def)
  from generatePuzzle_clue_count [OF r, of 82 medium "\<lparr> randomFn = MathRandom, mathState = () \<rparr>"]
  show ?thesis using r by auto
qed

end
